theory Spec2Isabelle
  imports Complex_Main "HOL-Library.Multiset"
begin

section \<open>Python text primitives used by jsonToIff.py\<close>

text \<open>
  A Python \<open>str\<close> is modelled as a \<open>string\<close>: one \<open>char\<close> per code point, which
  covers the code points below 256. \<open>len\<close> is \<open>length\<close>.
\<close>

definition digit_char :: "nat \<Rightarrow> char" where
  "digit_char d = ''0123456789'' ! (d mod 10)"

text \<open>\<open>str(n)\<close> for a non-negative Python int: its decimal digits.\<close>

fun dec :: "nat \<Rightarrow> string" where
  "dec n = (if n < 10 then [digit_char n] else dec (n div 10) @ [digit_char (n mod 10)])"

declare dec.simps [simp del]

definition str_int :: "int \<Rightarrow> string" where
  "str_int n = (if n < 0 then CHR ''-'' # dec (nat (- n)) else dec (nat n))"

text \<open>\<open>' ' * n\<close>: the empty string when \<open>n\<close> is not positive.\<close>

definition spaces :: "int \<Rightarrow> string" where
  "spaces n = replicate (nat n) CHR '' ''"

text \<open>\<open>s.ljust(width)\<close>: \<open>s\<close> itself when it is already \<open>width\<close> long or longer.\<close>

definition ljust :: "string \<Rightarrow> int \<Rightarrow> string" where
  "ljust s width = s @ replicate (nat width - length s) CHR '' ''"

text \<open>\<open>s[:n]\<close>: a negative \<open>n\<close> counts from the end.\<close>

definition slice_to :: "string \<Rightarrow> int \<Rightarrow> string" where
  "slice_to s n = (if 0 \<le> n then take (nat n) s else take (length s - nat (- n)) s)"

text \<open>\<open>s.split(c)\<close> for a one-character separator.\<close>

fun split_char :: "char \<Rightarrow> string \<Rightarrow> string list" where
  "split_char c [] = [[]]"
| "split_char c (x # xs) =
     (if x = c then [] # split_char c xs
      else (case split_char c xs of [] \<Rightarrow> [[x]] | p # ps \<Rightarrow> (x # p) # ps))"

definition zero_pad :: "nat \<Rightarrow> string \<Rightarrow> string" where
  "zero_pad w s = replicate (w - length s) CHR ''0'' @ s"

text \<open>\<open>f"{n:06}"\<close> for the non-negative \<open>n\<close> that \<open>main\<close> formats.\<close>

definition format_06 :: "nat \<Rightarrow> string" where
  "format_06 n = zero_pad 6 (dec n)"

text \<open>
  \<open>f"{n:,}"\<close>: the digits of \<open>n\<close> with a comma before every group of three, counted
  from the right, after the sign.
\<close>

fun commas_rev :: "string \<Rightarrow> string" where
  "commas_rev (a # b # c # d # rest) = a # b # c # CHR '','' # commas_rev (d # rest)"
| "commas_rev ds = ds"

definition group3 :: "string \<Rightarrow> string" where
  "group3 ds = rev (commas_rev (rev ds))"

definition format_comma :: "int \<Rightarrow> string" where
  "format_comma n = (if n < 0 then ''-'' else '''') @ group3 (dec (nat \<bar>n\<bar>))"

text \<open>
  White space that \<open>float(s)\<close> and \<open>int(s)\<close> strip from both ends of \<open>s\<close>:
  code points 9 to 13, 32, 133 and 160.
\<close>

definition is_space :: "char \<Rightarrow> bool" where
  "is_space c = (let n = (of_char c :: nat) in (9 \<le> n \<and> n \<le> 13) \<or> n = 32 \<or> n = 133 \<or> n = 160)"

definition strip :: "string \<Rightarrow> string" where
  "strip s = rev (dropWhile is_space (rev (dropWhile is_space s)))"

definition is_digit :: "char \<Rightarrow> bool" where
  "is_digit c = (let n = (of_char c :: nat) in 48 \<le> n \<and> n \<le> 57)"

definition digit_val :: "char \<Rightarrow> nat" where
  "digit_val c = of_char c - 48"

definition digits_val :: "string \<Rightarrow> nat" where
  "digits_val ds = foldl (\<lambda>acc c. 10 * acc + digit_val c) 0 ds"

text \<open>
  An underscore in a numeric literal must stand between two digits; the literal is then
  read without its underscores. \<open>None\<close>: a misplaced underscore.
\<close>

fun drop_underscores :: "char option \<Rightarrow> string \<Rightarrow> string option" where
  "drop_underscores prev [] = Some []"
| "drop_underscores prev (c # cs) =
     (if c = CHR ''_'' then
        (case (prev, cs) of
           (Some p, n # _) \<Rightarrow>
             (if is_digit p \<and> is_digit n then drop_underscores (Some c) cs else None)
         | _ \<Rightarrow> None)
      else map_option ((#) c) (drop_underscores (Some c) cs))"

definition split_sign :: "string \<Rightarrow> bool \<times> string" where
  "split_sign s =
     (case s of
        c # cs \<Rightarrow> (if c = CHR ''-'' then (True, cs) else if c = CHR ''+'' then (False, cs) else (False, s))
      | [] \<Rightarrow> (False, s))"

section \<open>Python floats\<close>

text \<open>
  A Python \<open>float\<close> is an IEEE 754 double. It is identified here by what \<open>repr\<close> prints
  for it: \<open>Finite neg m e\<close> is the double whose shortest decimal that reads back as the
  same double is \<open>m * 10 ^ e\<close>, negated when \<open>neg\<close> holds (\<open>m = 0\<close>: a zero).
\<close>

datatype pyfloat = Finite bool nat int | Infinite bool | NaN

text \<open>
  The significant digits and the position of the decimal point: the value is
  \<open>0.d\<^sub>1d\<^sub>2\<dots> * 10 ^ decpt\<close>. Trailing zeros are not significant; zero is the digit
  \<open>0\<close> at position 1.
\<close>

definition float_digits :: "nat \<Rightarrow> int \<Rightarrow> string \<times> int" where
  "float_digits m e =
     (let ds = dec m; sig = rev (dropWhile (\<lambda>c. c = CHR ''0'') (rev ds))
      in if sig = [] then (''0'', 1) else (sig, e + int (length ds)))"

definition repr_fixed :: "string \<Rightarrow> int \<Rightarrow> string" where
  "repr_fixed ds decpt =
     (if decpt \<le> 0 then ''0.'' @ replicate (nat (- decpt)) CHR ''0'' @ ds
      else if nat decpt < length ds then take (nat decpt) ds @ ''.'' @ drop (nat decpt) ds
      else ds @ replicate (nat decpt - length ds) CHR ''0'' @ ''.0'')"

definition repr_exp :: "string \<Rightarrow> int \<Rightarrow> string" where
  "repr_exp ds decpt =
     (let ex = decpt - 1
      in (case ds of [] \<Rightarrow> [] | d # rest \<Rightarrow> d # (if rest = [] then [] else CHR ''.'' # rest))
         @ ''e'' @ (if ex < 0 then ''-'' else ''+'') @ zero_pad 2 (dec (nat \<bar>ex\<bar>)))"

text \<open>
  \<open>str(x)\<close> for a float \<open>x\<close>: exponent notation when the decimal point would stand more
  than three zeros to the left of the digits or more than 16 places to their right.
\<close>

definition float_str :: "pyfloat \<Rightarrow> string" where
  "float_str f =
     (case f of
        NaN \<Rightarrow> ''nan''
      | Infinite neg \<Rightarrow> (if neg then ''-inf'' else ''inf'')
      | Finite neg m e \<Rightarrow>
          (let (ds, decpt) = float_digits m e
           in (if neg then ''-'' else '''') @
              (if decpt \<le> - 4 \<or> 16 < decpt then repr_exp ds decpt else repr_fixed ds decpt)))"

subsection \<open>Rounding to the nearest double\<close>

fun bitlen :: "nat \<Rightarrow> nat" where
  "bitlen n = (if n = 0 then 0 else Suc (bitlen (n div 2)))"

declare bitlen.simps [simp del]

text \<open>\<open>scale_le base d b a\<close>: \<open>base ^ d * b \<le> a\<close>, for an exponent of either sign.\<close>

definition scale_le :: "nat \<Rightarrow> int \<Rightarrow> nat \<Rightarrow> nat \<Rightarrow> bool" where
  "scale_le base d b a =
     (if 0 \<le> d then base ^ nat d * b \<le> a else b \<le> base ^ nat (- d) * a)"

text \<open>The exponent \<open>k\<close> with \<open>2 ^ k \<le> a / b < 2 ^ (k + 1)\<close>, and the same in base 10.\<close>

definition floor_log2 :: "nat \<Rightarrow> nat \<Rightarrow> int" where
  "floor_log2 a b =
     (let d = int (bitlen a) - int (bitlen b) in if scale_le 2 d b a then d else d - 1)"

definition floor_log10 :: "nat \<Rightarrow> nat \<Rightarrow> int" where
  "floor_log10 a b =
     (let d = int (length (dec a)) - int (length (dec b))
      in if scale_le 10 d b a then d else d - 1)"

definition round_half_even :: "nat \<Rightarrow> nat \<Rightarrow> nat" where
  "round_half_even p q =
     (let f = p div q; r = p mod q
      in if 2 * r < q then f else if q < 2 * r then f + 1 else if even f then f else f + 1)"

text \<open>
  The double nearest to \<open>a / b > 0\<close>, ties to the even significand, as the pair
  \<open>(q, t)\<close> of value \<open>q * 2 ^ t\<close>: 53 significant bits, fewer below \<open>2 ^ - 1022\<close>.
\<close>

definition to_double :: "nat \<Rightarrow> nat \<Rightarrow> nat \<times> int" where
  "to_double a b =
     (let k = floor_log2 a b; t = max k (- 1022) - 52;
          q = (if 0 \<le> t then round_half_even a (b * 2 ^ nat t)
               else round_half_even (a * 2 ^ nat (- t)) b)
      in if q = 2 ^ 53 then (2 ^ 52, t + 1) else (q, t))"

definition decimal_to_double :: "nat \<Rightarrow> int \<Rightarrow> nat \<times> int" where
  "decimal_to_double m e =
     (if 0 \<le> e then to_double (m * 10 ^ nat e) 1 else to_double m (10 ^ nat (- e)))"

text \<open>\<open>2 ^ 1024 \<le> q * 2 ^ t\<close>: beyond the largest double.\<close>

definition double_overflow :: "nat \<times> int \<Rightarrow> bool" where
  "double_overflow d = (1024 < int (bitlen (fst d)) + snd d)"

subsection \<open>The shortest decimal that reads back\<close>

text \<open>
  The two \<open>n\<close>-digit decimals around the double \<open>q * 2 ^ t\<close>, the nearer first;
  half way between them, the one with the even last digit first.
\<close>

definition neighbours :: "nat \<times> int \<Rightarrow> nat \<Rightarrow> (nat \<times> int) list" where
  "neighbours d n =
     (let (a, b) = (if 0 \<le> snd d then (fst d * 2 ^ nat (snd d), 1) else (fst d, 2 ^ nat (- snd d)));
          e = floor_log10 a b + 1 - int n;
          (num, den) = (if e \<le> 0 then (a * 10 ^ nat (- e), b) else (a, b * 10 ^ nat e));
          lo = num div den; r = num mod den
      in if 2 * r < den \<or> (2 * r = den \<and> even lo) then [(lo, e), (lo + 1, e)]
         else [(lo + 1, e), (lo, e)])"

definition candidates :: "nat \<times> int \<Rightarrow> nat \<Rightarrow> (nat \<times> int) list" where
  "candidates d n = filter (\<lambda>(m, e). 0 < m \<and> decimal_to_double m e = d) (neighbours d n)"

text \<open>
  \<open>repr\<close> takes the fewest digits that read back as the same double, and among those the
  decimal nearest to it; 17 digits always read back.
\<close>

definition shortest :: "nat \<times> int \<Rightarrow> nat \<times> int" where
  "shortest d =
     (case concat (map (candidates d) [1..<17]) of
        c # _ \<Rightarrow> c
      | [] \<Rightarrow> hd (neighbours d 17))"

definition float_of_double :: "bool \<Rightarrow> nat \<times> int \<Rightarrow> pyfloat" where
  "float_of_double neg d =
     (if fst d = 0 then Finite neg 0 0
      else if double_overflow d then Infinite neg
      else (let (m, e) = shortest d in Finite neg m e))"

text \<open>The float nearest to \<open>m * 10 ^ e\<close>: what \<open>float\<close> makes of a decimal literal.\<close>

definition float_of_decimal :: "bool \<Rightarrow> nat \<Rightarrow> int \<Rightarrow> pyfloat" where
  "float_of_decimal neg m e =
     (if m = 0 then Finite neg 0 0 else float_of_double neg (decimal_to_double m e))"

subsection \<open>Reading a float from text\<close>

definition lower :: "char \<Rightarrow> char" where
  "lower c = (let n = (of_char c :: nat) in if 65 \<le> n \<and> n \<le> 90 then char_of (n + 32) else c)"

text \<open>The exponent part of a literal, empty or \<open>e\<close> with a signed integer.\<close>

definition parse_exponent :: "string \<Rightarrow> int option" where
  "parse_exponent r =
     (case r of
        [] \<Rightarrow> Some 0
      | c # cs \<Rightarrow>
          (if c = CHR ''e'' \<or> c = CHR ''E'' then
             (let (neg, ds) = split_sign cs
              in if ds \<noteq> [] \<and> list_all is_digit ds
                 then Some (if neg then - int (digits_val ds) else int (digits_val ds))
                 else None)
           else None))"

text \<open>
  \<open>float(s)\<close> for a string: \<open>None\<close> where Python raises \<open>ValueError\<close>. A literal too
  large for a double reads as an infinity, one too small as a zero.
\<close>

definition float_of_str :: "string \<Rightarrow> pyfloat option" where
  "float_of_str s =
     (let (neg, body) = split_sign (strip s); low = map lower body
      in if low = ''inf'' \<or> low = ''infinity'' then Some (Infinite neg)
         else if low = ''nan'' then Some NaN
         else (case drop_underscores None body of
                 None \<Rightarrow> None
               | Some t \<Rightarrow>
                   (let ip = takeWhile is_digit t; r1 = dropWhile is_digit t;
                        (fp, r2) = (case r1 of
                                      [] \<Rightarrow> ('''', r1)
                                    | c # cs \<Rightarrow>
                                        (if c = CHR ''.''
                                         then (takeWhile is_digit cs, dropWhile is_digit cs)
                                         else ('''', r1)))
                    in if ip = [] \<and> fp = [] then None
                       else (case parse_exponent r2 of
                               None \<Rightarrow> None
                             | Some ex \<Rightarrow>
                                 Some (float_of_decimal neg (digits_val (ip @ fp))
                                         (ex - int (length fp)))))))"

section \<open>Python values and exceptions\<close>

text \<open>
  What \<open>json.load\<close> returns: \<open>None\<close>, a bool, an int, a float, a string, a list, or a
  dict with string keys (its items in insertion order, each key once).
\<close>

datatype pyval =
    PNone
  | PBool bool
  | PInt int
  | PFloat pyfloat
  | PStr string
  | PList "pyval list"
  | PDict "(string \<times> pyval) list"

datatype py_error =
    ValueError string
  | TypeError string
  | OverflowError string
  | KeyError string
  | FileNotFoundError string
  | OSError string

text \<open>\<open>repr(s)\<close> for a string: quoted, with the unprintable characters escaped.\<close>

definition hex_digit :: "nat \<Rightarrow> char" where
  "hex_digit d = ''0123456789abcdef'' ! (d mod 16)"

definition is_printable :: "char \<Rightarrow> bool" where
  "is_printable c =
     (let n = (of_char c :: nat) in (32 \<le> n \<and> n < 127) \<or> (161 \<le> n \<and> n \<noteq> 173))"

definition repr_char :: "char \<Rightarrow> char \<Rightarrow> string" where
  "repr_char quote c =
     (if c = quote \<or> c = CHR 0x5C then [CHR 0x5C, c]
      else if c = CHR 0x09 then [CHR 0x5C, CHR ''t'']
      else if c = CHR 0x0A then [CHR 0x5C, CHR ''n'']
      else if c = CHR 0x0D then [CHR 0x5C, CHR ''r'']
      else if is_printable c then [c]
      else [CHR 0x5C, CHR ''x'', hex_digit (of_char c div 16), hex_digit (of_char c mod 16)])"

definition repr_str :: "string \<Rightarrow> string" where
  "repr_str s =
     (let quote = (if CHR 0x27 \<in> set s \<and> CHR 0x22 \<notin> set s then CHR 0x22 else CHR 0x27)
      in quote # concat (map (repr_char quote) s) @ [quote])"

fun join :: "string \<Rightarrow> string list \<Rightarrow> string" where
  "join sep [] = []"
| "join sep [x] = x"
| "join sep (x # y # zs) = x @ sep @ join sep (y # zs)"

primrec py_repr :: "pyval \<Rightarrow> string" where
  "py_repr PNone = ''None''"
| "py_repr (PBool b) = (if b then ''True'' else ''False'')"
| "py_repr (PInt n) = str_int n"
| "py_repr (PFloat x) = float_str x"
| "py_repr (PStr s) = repr_str s"
| "py_repr (PList xs) = ''['' @ join '', '' (map py_repr xs) @ '']''"
| "py_repr (PDict kvs) =
     ''{'' @ join '', '' (map (\<lambda>(k, r). repr_str k @ '': '' @ r) (map (map_prod id py_repr) kvs))
       @ ''}''"

text \<open>\<open>str(value)\<close>, also what an f-string puts for \<open>{value}\<close>.\<close>

definition py_str :: "pyval \<Rightarrow> string" where
  "py_str v = (case v of PStr s \<Rightarrow> s | _ \<Rightarrow> py_repr v)"

text \<open>\<open>float(n)\<close> for an int: \<open>OverflowError\<close> beyond the range of a double.\<close>

definition float_of_int :: "int \<Rightarrow> py_error + pyfloat" where
  "float_of_int n =
     (if n = 0 then Inr (Finite False 0 0)
      else (let d = to_double (nat \<bar>n\<bar>) 1
            in if double_overflow d then Inl (OverflowError ''int too large to convert to float'')
               else Inr (float_of_double (n < 0) d)))"

definition type_name :: "pyval \<Rightarrow> string" where
  "type_name v =
     (case v of
        PNone \<Rightarrow> ''NoneType'' | PBool _ \<Rightarrow> ''bool'' | PInt _ \<Rightarrow> ''int'' | PFloat _ \<Rightarrow> ''float''
      | PStr _ \<Rightarrow> ''str'' | PList _ \<Rightarrow> ''list'' | PDict _ \<Rightarrow> ''dict'')"

text \<open>The builtin \<open>float(value)\<close>.\<close>

definition py_float :: "pyval \<Rightarrow> py_error + pyfloat" where
  "py_float v =
     (case v of
        PBool b \<Rightarrow> Inr (if b then Finite False 1 0 else Finite False 0 0)
      | PInt n \<Rightarrow> float_of_int n
      | PFloat x \<Rightarrow> Inr x
      | PStr s \<Rightarrow>
          (case float_of_str s of
             Some x \<Rightarrow> Inr x
           | None \<Rightarrow> Inl (ValueError (''could not convert string to float: '' @ repr_str s)))
      | _ \<Rightarrow>
          Inl (TypeError (''float() argument must be a string or a real number, not ''
                 @ [CHR 0x27] @ type_name v @ [CHR 0x27])))"

text \<open>The builtin \<open>int(s)\<close> for a string, in base 10.\<close>

definition py_int :: "string \<Rightarrow> py_error + int" where
  "py_int s =
     (let (neg, body) = split_sign (strip s)
      in (case drop_underscores None body of
            None \<Rightarrow> Inl (ValueError (''invalid literal for int() with base 10: '' @ repr_str s))
          | Some ds \<Rightarrow>
              (if ds \<noteq> [] \<and> list_all is_digit ds
               then Inr (if neg then - int (digits_val ds) else int (digits_val ds))
               else Inl (ValueError (''invalid literal for int() with base 10: '' @ repr_str s)))))"

section \<open>The formatter: format_number and format_field\<close>

text \<open>
  The body of the \<open>try\<close> block of \<open>format_number\<close>. Unpacking the result of
  \<open>split('.')\<close> into two names raises \<open>ValueError\<close> unless there are exactly two parts.
\<close>

definition format_number_try :: "pyval \<Rightarrow> int \<Rightarrow> py_error + string" where
  "format_number_try val len =
     (case py_float val of
        Inl e \<Rightarrow> Inl e
      | Inr float_value \<Rightarrow>
          (case split_char CHR ''.'' (float_str float_value) of
             [integer_part, decimal_part] \<Rightarrow>
               (case py_int integer_part of
                  Inl e \<Rightarrow> Inl e
                | Inr n \<Rightarrow>
                    (let formatted_number = format_comma n @ ''.'' @ decimal_part
                     in if len < int (length formatted_number)
                        then Inl (ValueError (''Formatted number '' @ [CHR 0x27] @ formatted_number
                               @ [CHR 0x27] @ '' exceeds the specified length of '' @ str_int len
                               @ ''.''))
                        else Inr (ljust formatted_number len)))
           | [_] \<Rightarrow> Inl (ValueError ''not enough values to unpack (expected 2, got 1)'')
           | _ \<Rightarrow> Inl (ValueError ''too many values to unpack (expected 2)'')))"

text \<open>
  \<open>format_number\<close>: the \<open>except ValueError\<close> clause replaces every \<open>ValueError\<close> of the
  body, the one for an over-long number included, by one with the message
  \<open>Value is not a number\<close>; any other exception passes through.
\<close>

definition format_number :: "pyval \<Rightarrow> int \<Rightarrow> py_error + string" where
  "format_number val len =
     (if val = PStr '''' \<or> val = PNone then Inr (spaces len)
      else (case format_number_try val len of
              Inl (ValueError e) \<Rightarrow> Inl (ValueError (''Value is not a number: '' @ py_str val))
            | r \<Rightarrow> r))"

definition format_field :: "pyval \<Rightarrow> string \<Rightarrow> int \<Rightarrow> py_error + string" where
  "format_field val field_type len =
     (if field_type = ''Number'' then format_number val len
      else (let value_str = py_str val in Inr (ljust (slice_to value_str len) len)))"

section \<open>The record builder: process_json\<close>

text \<open>A row of the metadata: position, field name, field type, length.\<close>

type_synonym field_spec = "int \<times> string \<times> string \<times> int"

datatype level = INFO | WARNING | ERROR

type_synonym log = "(level \<times> string) list"

text \<open>\<open>item.get(field_name, "")\<close>.\<close>

definition dict_get :: "(string \<times> pyval) list \<Rightarrow> string \<Rightarrow> pyval \<Rightarrow> pyval" where
  "dict_get item k dflt = (case map_of item k of None \<Rightarrow> dflt | Some v \<Rightarrow> v)"

text \<open>
  The inner loop of \<open>process_json\<close> over the sorted metadata, with the list
  \<open>formatted_fields\<close> and the log as state. Only \<open>ValueError\<close> is caught; another
  exception leaves the loop, and \<open>process_json\<close>, at once.
\<close>

fun format_fields ::
  "(string \<times> pyval) list \<Rightarrow> field_spec list \<Rightarrow> string list \<Rightarrow> log
     \<Rightarrow> log \<times> (py_error + string list)" where
  "format_fields item [] formatted_fields lg = (lg, Inr formatted_fields)"
| "format_fields item ((position, field_name, field_type, len) # rest) formatted_fields lg =
     (let val = dict_get item field_name (PStr '''')
      in (case format_field val field_type len of
            Inr formatted_field \<Rightarrow>
              format_fields item rest (formatted_fields @ [formatted_field]) lg
          | Inl (ValueError e) \<Rightarrow>
              format_fields item rest (formatted_fields @ [spaces len])
                (lg @ [(ERROR, ''Error formatting field: '' @ e)])
          | Inl e \<Rightarrow> (lg, Inl e)))"

text \<open>The outer loop over the items, with the list \<open>lines\<close> and the log as state.\<close>

fun process_items ::
  "pyval list \<Rightarrow> field_spec list \<Rightarrow> string list \<Rightarrow> log \<Rightarrow> log \<times> (py_error + string list)" where
  "process_items [] metadata lines lg = (lg, Inr lines)"
| "process_items (item # rest) metadata lines lg =
     (case item of
        PDict d \<Rightarrow>
          (case format_fields d (sort_key fst metadata) [] lg of
             (lg', Inr formatted_fields) \<Rightarrow>
               process_items rest metadata (lines @ [concat formatted_fields]) lg'
           | (lg', Inl e) \<Rightarrow> (lg', Inl e))
      | _ \<Rightarrow>
          process_items rest metadata lines
            (lg @ [(WARNING, ''Skipping item because it'' @ [CHR 0x27] @ ''s not a dictionary: ''
                      @ py_str item)]))"

text \<open>\<open>if not isinstance(json_data, list): json_data = [json_data]\<close>.\<close>

definition as_list :: "pyval \<Rightarrow> pyval list" where
  "as_list json_data = (case json_data of PList xs \<Rightarrow> xs | _ \<Rightarrow> [json_data])"

definition process_json :: "pyval \<Rightarrow> field_spec list \<Rightarrow> log \<times> (py_error + string list)" where
  "process_json json_data metadata = process_items (as_list json_data) metadata [] []"

section \<open>The file emitter: main\<close>

text \<open>\<open>os.path.basename\<close> and \<open>os.path.join\<close> of two parts, on POSIX paths.\<close>

definition basename :: "string \<Rightarrow> string" where
  "basename p = rev (takeWhile (\<lambda>c. c \<noteq> CHR ''/'') (rev p))"

definition path_join :: "string \<Rightarrow> string \<Rightarrow> string" where
  "path_join a b =
     (if b \<noteq> [] \<and> hd b = CHR ''/'' then b
      else if a = [] \<or> last a = CHR ''/'' then a @ b
      else a @ ''/'' @ b)"

text \<open>
  The file system as \<open>main\<close> meets it. Whether \<open>os.makedirs\<close> or \<open>open\<close> raises for a
  path depends on the directories, files and permissions that exist, so the file system
  tells for each path the exception of the call, if any; two paths name the same file
  when their \<open>realpath\<close> is the same.
\<close>

record file_system =
  makedirs_error :: "string \<Rightarrow> py_error option"
  open_error :: "string \<Rightarrow> py_error option"
  realpath :: "string \<Rightarrow> string"

text \<open>
  \<open>os.makedirs(path, exist_ok=True)\<close>: in every file system the empty path raises
  \<open>FileNotFoundError\<close> and a path with a null character raises \<open>ValueError\<close>.
\<close>

definition os_makedirs :: "file_system \<Rightarrow> string \<Rightarrow> py_error option" where
  "os_makedirs fs path =
     (if path = [] then Some (FileNotFoundError (''[Errno 2] No such file or directory: '' @ repr_str path))
      else if CHR 0x00 \<in> set path then Some (ValueError ''embedded null byte'')
      else makedirs_error fs path)"

text \<open>
  \<open>open(path, 'w')\<close>, with the same two cases. A file that has been opened is taken
  to be written in full.
\<close>

definition open_for_writing :: "file_system \<Rightarrow> string \<Rightarrow> py_error option" where
  "open_for_writing fs path =
     (if path = [] then Some (FileNotFoundError (''[Errno 2] No such file or directory: '' @ repr_str path))
      else if CHR 0x00 \<in> set path then Some (ValueError ''embedded null byte'')
      else open_error fs path)"

text \<open>What \<open>main\<close> does to the file system, in order.\<close>

datatype effect = Makedirs string | Write string string

text \<open>
  The contents of the files after a list of effects: a write replaces the content of the
  file that its path names.
\<close>

fun written :: "file_system \<Rightarrow> effect list \<Rightarrow> (string \<rightharpoonup> string) \<Rightarrow> (string \<rightharpoonup> string)" where
  "written fs [] files = files"
| "written fs (Makedirs p # es) files = written fs es files"
| "written fs (Write p c # es) files = written fs es (files(realpath fs p \<mapsto> c))"

definition max_data_row_length :: "string list \<Rightarrow> nat" where
  "max_data_row_length all_iff_lines =
     (let data_row_lengths = map length all_iff_lines
      in if data_row_lengths \<noteq> [] then Max (set data_row_lengths) else 0)"

definition max_row_length :: "string \<Rightarrow> string list \<Rightarrow> nat" where
  "max_row_length source_file_name all_iff_lines =
     max (max_data_row_length all_iff_lines) (length source_file_name + 6)"

definition header_line :: "string \<Rightarrow> string list \<Rightarrow> string" where
  "header_line source_file_name all_iff_lines =
     (let w = max_row_length source_file_name all_iff_lines
      in ljust (format_06 w @ source_file_name) (int w))"

text \<open>
  \<open>main\<close> from the call of \<open>process_json\<close> on, given the file system, the
  configuration, the path of the JSON file, and the JSON value and the metadata read
  from their files. It returns the log, the effects carried out, and the exception that
  ended the run, if any: the effects carried out before an exception stay.
\<close>

definition main ::
  "file_system \<Rightarrow> (string \<rightharpoonup> string) \<Rightarrow> string \<Rightarrow> pyval \<Rightarrow> field_spec list
     \<Rightarrow> log \<times> effect list \<times> py_error option" where
  "main fs config json_path json_data metadata =
     (case process_json json_data metadata of
        (lg, Inl e) \<Rightarrow> (lg, [], Some e)
      | (lg, Inr all_iff_lines) \<Rightarrow>
          (let source_file_name = basename json_path;
               w = max_row_length source_file_name all_iff_lines;
               header = header_line source_file_name all_iff_lines
           in (case config ''resultPath4IFF'' of
                 None \<Rightarrow> (lg, [], Some (KeyError ''resultPath4IFF''))
               | Some result_path \<Rightarrow>
                   (let result_filename =
                          (case config ''extractFile4IFF'' of None \<Rightarrow> ''output'' | Some v \<Rightarrow> v)
                            @ ''.iff'';
                        result_backup_path =
                          (case config ''resultBackupPath4CSV'' of None \<Rightarrow> '''' | Some v \<Rightarrow> v);
                        iff_filename = path_join result_path result_filename;
                        backup_filename = path_join result_backup_path result_filename;
                        primary =
                          [Makedirs result_path,
                           Write iff_filename
                             (header @ concat (map (\<lambda>line. ljust line (int w)) all_iff_lines))];
                        lg1 = lg @ [(INFO, ''Generated IFF file: '' @ iff_filename)]
                    in (case os_makedirs fs result_path of
                          Some e \<Rightarrow> (lg, [], Some e)
                        | None \<Rightarrow>
                            (case open_for_writing fs iff_filename of
                               Some e \<Rightarrow> (lg, [Makedirs result_path], Some e)
                             | None \<Rightarrow>
                                 (if result_backup_path \<noteq> '''' then
                                    (case os_makedirs fs result_backup_path of
                                       Some e \<Rightarrow> (lg1, primary, Some e)
                                     | None \<Rightarrow>
                                         (case open_for_writing fs backup_filename of
                                            Some e \<Rightarrow>
                                              (lg1, primary @ [Makedirs result_backup_path], Some e)
                                          | None \<Rightarrow>
                                              (lg1 @ [(INFO, ''Backed up IFF file to: ''
                                                               @ backup_filename)],
                                               primary @
                                                 [Makedirs result_backup_path,
                                                  Write backup_filename
                                                    (header @ concat all_iff_lines)],
                                               None)))
                                  else (lg1, primary, None))))))))"

section \<open>Notions of the specification\<close>

text \<open>
  What one field contributes to a line: the formatted value, or blanks of the declared
  length when formatting raised an error.
\<close>

definition field_text :: "(string \<times> pyval) list \<Rightarrow> field_spec \<Rightarrow> string" where
  "field_text item spec =
     (case spec of
        (position, field_name, field_type, len) \<Rightarrow>
          (case format_field (dict_get item field_name (PStr '''')) field_type len of
             Inr formatted_field \<Rightarrow> formatted_field
           | Inl _ \<Rightarrow> spaces len))"

text \<open>A field whose formatting raises an exception that \<open>process_json\<close> does not catch.\<close>

definition uncaught :: "(string \<times> pyval) list \<Rightarrow> field_spec \<Rightarrow> bool" where
  "uncaught item spec =
     (case spec of
        (position, field_name, field_type, len) \<Rightarrow>
          (case format_field (dict_get item field_name (PStr '''')) field_type len of
             Inr _ \<Rightarrow> False
           | Inl (ValueError _) \<Rightarrow> False
           | Inl _ \<Rightarrow> True))"

text \<open>The line of one object: its fields in the sorted order of the metadata.\<close>

definition record_line :: "field_spec list \<Rightarrow> (string \<times> pyval) list \<Rightarrow> string" where
  "record_line metadata item = concat (map (field_text item) (sort_key fst metadata))"

definition is_dict :: "pyval \<Rightarrow> bool" where
  "is_dict v = (case v of PDict _ \<Rightarrow> True | _ \<Rightarrow> False)"

definition the_dict :: "pyval \<Rightarrow> (string \<times> pyval) list" where
  "the_dict v = (case v of PDict d \<Rightarrow> d | _ \<Rightarrow> [])"

text \<open>
  The specification's comma grouping of a number, by arithmetic: the thousands before a
  comma, then the last three digits.
\<close>

fun spec_group :: "nat \<Rightarrow> string" where
  "spec_group n =
     (if n < 1000 then dec n
      else spec_group (n div 1000) @ '','' @ zero_pad 3 (dec (n mod 1000)))"

declare spec_group.simps [simp del]

definition spec_grouped :: "int \<Rightarrow> string" where
  "spec_grouped n = (if n < 0 then CHR ''-'' # spec_group (nat (- n)) else spec_group (nat n))"

text \<open>The integer that a text of an optional minus sign and digits denotes.\<close>

definition spec_int :: "string \<Rightarrow> int option" where
  "spec_int t =
     (case t of
        [] \<Rightarrow> None
      | c # cs \<Rightarrow>
          (if c = CHR ''-''
           then (if cs \<noteq> [] \<and> list_all is_digit cs then Some (- int (digits_val cs)) else None)
           else (if list_all is_digit t then Some (int (digits_val t)) else None)))"

text \<open>
  The specification's formatted number for the text \<open>r\<close> of a float: the integer part,
  before the decimal point, comma-grouped; a \<open>.\<close>; the fractional part, after the
  point, as it is. \<open>None\<close>: the text has no decimal point, or no integer before it.
\<close>

definition spec_number_text :: "string \<Rightarrow> string option" where
  "spec_number_text r =
     (if CHR ''.'' \<in> set r
      then (case spec_int (takeWhile (\<lambda>c. c \<noteq> CHR ''.'') r) of
              None \<Rightarrow> None
            | Some n \<Rightarrow> Some (spec_grouped n @ ''.'' @ tl (dropWhile (\<lambda>c. c \<noteq> CHR ''.'') r)))
      else None)"

text \<open>
  The number that a finite float's decimal denotes; none for an infinity or a NaN. It is
  the number that \<open>repr\<close> prints, not the binary value, but printing keeps the order:
  the float lies below, at or above a number such as \<open>-1\<close> or \<open>-0.0001\<close> exactly when
  its decimal does relative to the decimal printed for the float of that number.
\<close>

definition float_val :: "pyfloat \<Rightarrow> rat option" where
  "float_val x =
     (case x of
        Finite neg m e \<Rightarrow>
          Some ((if neg then - 1 else 1) * of_nat m
                  * (if 0 \<le> e then 10 ^ nat e else 1 / 10 ^ nat (- e)))
      | _ \<Rightarrow> None)"

section \<open>Basic facts about the text primitives\<close>

lemma length_spaces: "length (spaces n) = nat n"
  by (simp add: spaces_def)

lemma length_ljust: "length (ljust s w) = max (length s) (nat w)"
  by (simp add: ljust_def)

lemma slice_to_nonneg: "0 \<le> n \<Longrightarrow> slice_to s n = take (nat n) s"
  by (simp add: slice_to_def)

lemma py_str_PStr: "py_str (PStr s) = s"
  by (simp add: py_str_def)

lemma format_field_string:
  "field_type \<noteq> ''Number'' \<Longrightarrow>
   format_field v field_type L = Inr (ljust (slice_to (py_str v) L) L)"
  by (simp add: format_field_def)

lemma format_number_blank:
  "v = PStr '''' \<or> v = PNone \<Longrightarrow> format_number v L = Inr (spaces L)"
  by (auto simp add: format_number_def)

lemma dict_get_absent: "map_of item k = None \<Longrightarrow> dict_get item k d = d"
  by (simp add: dict_get_def)

lemma dict_get_present: "map_of item k = Some v \<Longrightarrow> dict_get item k d = v"
  by (simp add: dict_get_def)

section \<open>Blank, string and null fields\<close>

text \<open>
  Claim C5. For every field type and every positive length \<open>L\<close>, a key that is absent
  from the object, or present with the empty string, formats to exactly \<open>L\<close> spaces;
  no error is raised, and the record builder logs nothing for it.
\<close>

theorem absent_or_empty_formats_to_blanks:
  assumes "0 < L"
    and "map_of item field_name = None \<or> map_of item field_name = Some (PStr '''')"
  shows "format_field (dict_get item field_name (PStr '''')) field_type L
           = Inr (replicate (nat L) CHR '' '')
         \<and> process_json (PDict item) [(position, field_name, field_type, L)]
           = ([], Inr [replicate (nat L) CHR '' ''])"
proof -
  have v: "dict_get item field_name (PStr '''') = PStr ''''"
    using assms(2) by (auto simp add: dict_get_def)
  have f: "format_field (PStr '''') field_type L = Inr (replicate (nat L) CHR '' '')"
  proof (cases "field_type = ''Number''")
    case True
    then show ?thesis
      by (simp add: format_field_def format_number_blank spaces_def)
  next
    case False
    then show ?thesis
      using assms(1)
      by (simp add: format_field_string py_str_def slice_to_def ljust_def)
  qed
  have "process_json (PDict item) [(position, field_name, field_type, L)]
          = ([], Inr [replicate (nat L) CHR '' ''])"
    by (simp add: process_json_def as_list_def v f)
  with v f show ?thesis by simp
qed

theorem absent_or_empty_formats_to_blanks_witness:
  "(0::int) < 4
   \<and> (map_of [(''id'', PInt 7), (''note'', PStr '''')] ''name'' = None
        \<or> map_of [(''id'', PInt 7), (''note'', PStr '''')] ''name'' = Some (PStr ''''))
   \<and> format_field (dict_get [(''id'', PInt 7), (''note'', PStr '''')] ''name'' (PStr '''')) ''Number'' 4
       = Inr (replicate (nat 4) CHR '' '')
   \<and> process_json (PDict [(''id'', PInt 7), (''note'', PStr '''')]) [(1, ''name'', ''Number'', 4)]
       = ([], Inr [replicate (nat 4) CHR '' ''])"
  using absent_or_empty_formats_to_blanks
          [of 4 "[(''id'', PInt 7), (''note'', PStr '''')]" "''name''" "''Number''" 1]
  by simp

text \<open>
  Claim C3. For every value and every positive length \<open>L\<close>, a field of a type other
  than \<open>Number\<close> formats to \<open>str(value)\<close> cut to at most \<open>L\<close> characters and
  then padded with spaces on the right to exactly \<open>L\<close> characters; it never raises.
\<close>

theorem string_field_truncates_and_pads:
  assumes "0 < L" and "field_type \<noteq> ''Number''"
  shows "format_field v field_type L
           = Inr (take (nat L) (py_str v) @ replicate (nat L - length (py_str v)) CHR '' '')
         \<and> length (take (nat L) (py_str v) @ replicate (nat L - length (py_str v)) CHR '' '')
           = nat L"
  using assms by (auto simp add: format_field_string slice_to_def ljust_def)

theorem string_field_truncates_and_pads_witness:
  "(0::int) < 3 \<and> ''String'' \<noteq> ''Number''
   \<and> format_field (PStr ''ABCDEFGH'') ''String'' 3 = Inr ''ABC''
   \<and> format_field (PInt 7) ''String'' 3 = Inr ''7  ''"
proof -
  have e: "py_str (PInt 7) = ''7''"
    by (simp add: py_str_def str_int_def dec.simps [of 7] digit_char_def)
  show ?thesis
    using string_field_truncates_and_pads [of 3 "''String''" "PStr ''ABCDEFGH''"]
      string_field_truncates_and_pads [of 3 "''String''" "PInt 7"]
    by (simp add: e py_str_PStr numeral_eq_Suc)
qed

text \<open>
  Claim C10. For a key present with the value \<open>null\<close>, a \<open>Number\<close> field formats to
  \<open>L\<close> spaces, as for an absent key, but a field of another type formats the text
  \<open>None\<close>, cut and padded to \<open>L\<close> characters, which is not blank.
\<close>

theorem null_is_blank_for_number_but_text_for_string:
  assumes "0 < L" and "map_of item field_name = Some PNone"
  shows "format_field (dict_get item field_name (PStr '''')) ''Number'' L
           = Inr (replicate (nat L) CHR '' '')
         \<and> (field_type \<noteq> ''Number'' \<longrightarrow>
              format_field (dict_get item field_name (PStr '''')) field_type L
                = Inr (take (nat L) ''None'' @ replicate (nat L - 4) CHR '' '')
              \<and> take (nat L) ''None'' @ replicate (nat L - 4) CHR '' ''
                  \<noteq> replicate (nat L) CHR '' '')"
proof -
  have v: "dict_get item field_name (PStr '''') = PNone"
    using assms(2) by (simp add: dict_get_def)
  have n: "format_field PNone ''Number'' L = Inr (replicate (nat L) CHR '' '')"
    by (simp add: format_field_def format_number_blank spaces_def)
  have s: "format_field PNone field_type L
             = Inr (take (nat L) ''None'' @ replicate (nat L - 4) CHR '' '')"
    if "field_type \<noteq> ''Number''"
    using that assms(1) by (simp add: format_field_string slice_to_def ljust_def py_str_def)
  obtain k where k: "nat L = Suc k"
    using assms(1) by (cases "nat L") auto
  have d: "take (nat L) ''None'' @ replicate (nat L - 4) CHR '' '' \<noteq> replicate (nat L) CHR '' ''"
    by (simp add: k)
  from v n s d show ?thesis by simp
qed

theorem null_is_blank_for_number_but_text_for_string_witness:
  "(0::int) < 6 \<and> map_of [(''name'', PNone)] ''name'' = Some PNone \<and> ''String'' \<noteq> ''Number''
   \<and> format_field (dict_get [(''name'', PNone)] ''name'' (PStr '''')) ''Number'' 6 = Inr ''      ''
   \<and> format_field (dict_get [(''name'', PNone)] ''name'' (PStr '''')) ''String'' 6 = Inr ''None  ''
   \<and> ''None  '' \<noteq> ''      ''"
  using null_is_blank_for_number_but_text_for_string
          [of 6 "[(''name'', PNone)]" "''name''" "''String''"]
  by (simp add: numeral_eq_Suc)


section \<open>The record builder\<close>

lemma format_number_try_length:
  "format_number_try v L = Inr s \<Longrightarrow> length s = nat L"
  by (auto simp add: format_number_try_def length_ljust Let_def
      split: sum.splits list.splits if_splits)

lemma format_number_length:
  "format_number v L = Inr s \<Longrightarrow> length s = nat L"
  by (auto simp add: format_number_def length_spaces format_number_try_length
      split: if_splits sum.splits py_error.splits)

lemma format_field_length:
  "format_field v field_type L = Inr s \<Longrightarrow> 0 \<le> L \<Longrightarrow> length s = nat L"
  by (auto simp add: format_field_def format_number_length length_ljust slice_to_def
      split: if_splits)

lemma length_field_text:
  "0 \<le> L \<Longrightarrow> length (field_text item (position, field_name, field_type, L)) = nat L"
  by (auto simp add: field_text_def length_spaces format_field_length split: sum.splits)

lemma format_fields_Inr:
  "format_fields item specs acc lg = (lg', Inr fs) \<Longrightarrow>
   fs = acc @ map (field_text item) specs"
proof (induction specs arbitrary: acc lg)
  case Nil
  then show ?case by simp
next
  case (Cons spec specs)
  obtain position field_name field_type L where spec: "spec = (position, field_name, field_type, L)"
    by (cases spec) auto
  show ?case
  proof (cases "format_field (dict_get item field_name (PStr '''')) field_type L")
    case (Inr s)
    with Cons.prems spec
    have "format_fields item specs (acc @ [s]) lg = (lg', Inr fs)"
      by simp
    from Cons.IH [OF this] Inr spec show ?thesis
      by (simp add: field_text_def)
  next
    case (Inl e)
    show ?thesis
    proof (cases e)
      case (ValueError msg)
      with Cons.prems spec Inl
      have "format_fields item specs (acc @ [spaces L])
              (lg @ [(ERROR, ''Error formatting field: '' @ msg)]) = (lg', Inr fs)"
        by simp
      from Cons.IH [OF this] Inl spec show ?thesis
        by (simp add: field_text_def)
    qed (use Cons.prems spec Inl in auto)
  qed
qed

lemma format_fields_no_uncaught:
  "\<forall>spec \<in> set specs. \<not> uncaught item spec \<Longrightarrow>
   \<exists>lg'. format_fields item specs acc lg = (lg', Inr (acc @ map (field_text item) specs))"
proof (induction specs arbitrary: acc lg)
  case Nil
  then show ?case by simp
next
  case (Cons spec specs)
  obtain position field_name field_type L where spec: "spec = (position, field_name, field_type, L)"
    by (cases spec) auto
  from Cons.prems have rest: "\<forall>spec \<in> set specs. \<not> uncaught item spec"
    and this_one: "\<not> uncaught item spec"
    by simp_all
  show ?case
  proof (cases "format_field (dict_get item field_name (PStr '''')) field_type L")
    case (Inr s)
    with Cons.IH [OF rest, of "acc @ [s]" lg] spec show ?thesis
      by (simp add: field_text_def)
  next
    case (Inl e)
    with this_one spec obtain msg where e: "e = ValueError msg"
      by (cases e) (auto simp add: uncaught_def)
    with Cons.IH [OF rest, of "acc @ [spaces L]" "lg @ [(ERROR, ''Error formatting field: '' @ msg)]"]
      Inl spec
    show ?thesis
      by (simp add: field_text_def)
  qed
qed

lemma process_items_Inr:
  "process_items items metadata lines lg = (lg', Inr ls) \<Longrightarrow>
   ls = lines @ map (\<lambda>v. record_line metadata (the_dict v)) (filter is_dict items)"
proof (induction items arbitrary: lines lg)
  case Nil
  then show ?case by simp
next
  case (Cons item items)
  show ?case
  proof (cases "is_dict item")
    case True
    then obtain d where d: "item = PDict d"
      by (cases item) (auto simp add: is_dict_def)
    obtain lg1 r where r: "format_fields d (sort_key fst metadata) [] lg = (lg1, r)"
      by (cases "format_fields d (sort_key fst metadata) [] lg") auto
    show ?thesis
    proof (cases r)
      case (Inl e)
      with Cons.prems d r show ?thesis by simp
    next
      case (Inr fs)
      with r have fs: "fs = map (field_text d) (sort_key fst metadata)"
        using format_fields_Inr [of d "sort_key fst metadata" "[]" lg lg1 fs] by simp
      from Cons.prems d r Inr
      have "process_items items metadata (lines @ [concat fs]) lg1 = (lg', Inr ls)"
        by simp
      from Cons.IH [OF this] fs d show ?thesis
        by (simp add: record_line_def is_dict_def the_dict_def)
    qed
  next
    case False
    with Cons.prems obtain lgw where "process_items items metadata lines lgw = (lg', Inr ls)"
      by (cases item) (auto simp add: is_dict_def)
    from Cons.IH [OF this] False show ?thesis by simp
  qed
qed

lemma process_items_no_uncaught:
  "\<forall>v \<in> set items. is_dict v \<longrightarrow> (\<forall>spec \<in> set metadata. \<not> uncaught (the_dict v) spec) \<Longrightarrow>
   \<exists>lg'. process_items items metadata lines lg
           = (lg', Inr (lines @ map (\<lambda>v. record_line metadata (the_dict v)) (filter is_dict items)))"
proof (induction items arbitrary: lines lg)
  case Nil
  then show ?case by simp
next
  case (Cons item items)
  from Cons.prems
  have rest: "\<forall>v \<in> set items. is_dict v \<longrightarrow> (\<forall>spec \<in> set metadata. \<not> uncaught (the_dict v) spec)"
    by simp
  show ?case
  proof (cases "is_dict item")
    case True
    then obtain d where d: "item = PDict d"
      by (cases item) (auto simp add: is_dict_def)
    with Cons.prems True have "\<forall>spec \<in> set (sort_key fst metadata). \<not> uncaught d spec"
      by (simp add: the_dict_def)
    from format_fields_no_uncaught [OF this, of "[]" lg]
    obtain lg1 where
      "format_fields d (sort_key fst metadata) [] lg
         = (lg1, Inr (map (field_text d) (sort_key fst metadata)))"
      by auto
    with Cons.IH [OF rest, of "lines @ [record_line metadata d]" lg1] d show ?thesis
      by (simp add: record_line_def is_dict_def the_dict_def)
  next
    case False
    have "\<exists>lgw. process_items (item # items) metadata lines lg
                  = process_items items metadata lines lgw"
      using False by (cases item) (auto simp add: is_dict_def)
    then obtain lgw where
      "process_items (item # items) metadata lines lg = process_items items metadata lines lgw"
      by blast
    with Cons.IH [OF rest, of lines lgw] False show ?thesis by simp
  qed
qed

section \<open>Evaluation on concrete inputs\<close>

lemma dec_small: "n < 10 \<Longrightarrow> dec n = [digit_char n]"
  by (simp add: dec.simps)

lemma dec_large: "10 \<le> n \<Longrightarrow> dec n = dec (n div 10) @ [digit_char (n mod 10)]"
  by (subst dec.simps) simp

lemma bitlen_zero: "bitlen 0 = 0"
  by (simp add: bitlen.simps)

lemma bitlen_pos: "0 < n \<Longrightarrow> bitlen n = Suc (bitlen (n div 2))"
  by (subst bitlen.simps) simp

lemmas eval_float =
  dec_small dec_large bitlen_zero bitlen_pos digit_char_def
  floor_log2_def floor_log10_def scale_le_def round_half_even_def to_double_def
  decimal_to_double_def double_overflow_def neighbours_def candidates_def shortest_def
  float_of_double_def float_of_decimal_def float_of_int_def py_float_def Let_def
  upt_conv_Cons

lemma shortest_first:
  assumes "candidates d n = c # cs" and "0 < n" and "n < 17"
    and "\<forall>k. 0 < k \<and> k < n \<longrightarrow> candidates d k = []"
  shows "shortest d = c"
proof -
  obtain m where m: "17 = n + m"
    using assms(3) by (metis less_imp_add_positive)
  have "[1..<n + m] = [1..<n] @ [n..<n + m]"
    using assms(2) by (intro upt_add_eq_append) simp
  moreover have "[n..<17] = n # [Suc n..<17]"
    using assms(3) by (rule upt_conv_Cons)
  ultimately have split: "[1..<17] = [1..<n] @ n # [Suc n..<17]"
    using m by simp
  have "concat (map (candidates d) [1..<n]) = []"
    using assms(4) by auto
  with split assms(1) have "concat (map (candidates d) [1..<17])
      = c # cs @ concat (map (candidates d) [Suc n..<17])"
    by simp
  then show ?thesis
    by (simp add: shortest_def)
qed

lemma to_double_42: "to_double 42 1 = (5910974510923776, - 47)"
  by (simp add: eval_float)

lemma candidates_42_1: "candidates (5910974510923776, - 47) 1 = []"
  by (simp add: eval_float)

lemma candidates_42_2: "candidates (5910974510923776, - 47) 2 = [(42, 0)]"
  by (simp add: eval_float)

lemma shortest_42: "shortest (5910974510923776, - 47) = (42, 0)"
proof (rule shortest_first [OF candidates_42_2])
  show "\<forall>k. 0 < k \<and> k < 2 \<longrightarrow> candidates (5910974510923776, - 47) k = []"
  proof (intro allI impI)
    fix k :: nat
    assume "0 < k \<and> k < 2"
    then have "k = 1" by simp
    then show "candidates (5910974510923776, - 47) k = []"
      using candidates_42_1 by simp
  qed
qed simp_all

lemma py_float_42: "py_float (PInt 42) = Inr (Finite False 42 0)"
  by (simp add: py_float_def float_of_int_def to_double_42 shortest_42 float_of_double_def
      double_overflow_def bitlen_zero bitlen_pos del: One_nat_def)

lemma replicate_numeral_eval:
  "replicate (numeral k) x = x # replicate (pred_numeral k) x"
  by (simp add: numeral_eq_Suc)

lemmas eval_text = replicate_numeral_eval
  dec_small dec_large digit_char_def float_str_def float_digits_def repr_fixed_def repr_exp_def
  zero_pad_def py_int_def strip_def is_space_def split_sign_def is_digit_def digit_val_def
  digits_val_def format_comma_def group3_def ljust_def spaces_def slice_to_def str_int_def
  py_str_def Let_def

lemma float_str_42: "float_str (Finite False 42 0) = ''42.0''"
  by (simp add: eval_text)

lemma format_number_42: "format_number (PInt 42) 5 = Inr ''42.0 ''"
  by (simp add: format_number_def format_number_try_def py_float_42 float_str_42 eval_text)

lemma format_number_too_long:
  "format_number (PFloat (Finite False 12345678999 (- 2))) 10
     = Inl (ValueError ''Value is not a number: 123456789.99'')"
  by (simp add: format_number_def format_number_try_def py_float_def eval_text)

lemma process_json_example: "process_json (PList [PInt 0, PDict [(''id'', PInt 42), (''b'', PStr ''xyz''), (''c'', PStr ''q'')]])
       [(2, ''b'', ''String'', 3), (1, ''id'', ''Number'', 5), (2, ''c'', ''String'', 2)]
     = ([(WARNING, ''Skipping item because it'' @ [CHR 0x27] @ ''s not a dictionary: 0'')],
        Inr [''42.0 xyzq ''])"
   by (simp add: process_json_def as_list_def format_field_def format_number_42 dict_get_def eval_text)

section \<open>Lines of the record builder\<close>

lemma int_sum_list_nat:
  "\<forall>x \<in> set xs. 0 \<le> f x \<Longrightarrow> int (sum_list (map (\<lambda>x. nat (f x)) xs)) = sum_list (map f xs)"
  by (induction xs) auto

lemma sum_list_sort_key:
  fixes g :: "'a \<Rightarrow> 'b::comm_monoid_add"
  shows "sum_list (map g (sort_key f xs)) = sum_list (map g xs)"
proof -
  have "mset (map g (sort_key f xs)) = mset (map g xs)"
    by simp
  then show ?thesis
    by (metis sum_mset_sum_list)
qed

lemma length_record_line:
  assumes "\<forall>spec \<in> set metadata. 0 \<le> snd (snd (snd spec))"
  shows "int (length (record_line metadata item))
           = sum_list (map (\<lambda>spec. snd (snd (snd spec))) metadata)"
proof -
  have each: "length (field_text item spec) = nat (snd (snd (snd spec)))"
    if "spec \<in> set metadata" for spec
  proof -
    obtain position field_name field_type L where s: "spec = (position, field_name, field_type, L)"
      by (cases spec) auto
    with that assms have "0 \<le> L" by auto
    with s show ?thesis by (simp add: length_field_text)
  qed
  have "length (record_line metadata item)
          = sum_list (map (\<lambda>spec. length (field_text item spec)) (sort_key fst metadata))"
    by (simp add: record_line_def length_concat comp_def)
  also have "\<dots> = sum_list (map (\<lambda>spec. length (field_text item spec)) metadata)"
    by (rule sum_list_sort_key)
  also have "\<dots> = sum_list (map (\<lambda>spec. nat (snd (snd (snd spec)))) metadata)"
  proof -
    have "map (\<lambda>spec. length (field_text item spec)) metadata
            = map (\<lambda>spec. nat (snd (snd (snd spec)))) metadata"
      using each by simp
    then show ?thesis by (rule arg_cong)
  qed
  finally show ?thesis
    using assms by (simp add: int_sum_list_nat)
qed

text \<open>
  Claim C4. Every line that the record builder returns is, for one object of the input,
  the concatenation of one text per row of the metadata, the rows taken in ascending
  order of position with rows of equal position in their original order; each text is as
  long as the row declares (positive lengths, as the data model requires), so the line is
  as long as the sum of the declared lengths.
\<close>

theorem line_is_concatenation_of_fixed_width_fields:
  assumes "process_json json_data metadata = (lg, Inr lines)"
    and "\<forall>spec \<in> set metadata. 0 < snd (snd (snd spec))"
    and "line \<in> set lines"
  shows "\<exists>item. PDict item \<in> set (as_list json_data)
           \<and> line = concat (map (field_text item) (sort_key fst metadata))
           \<and> sorted (map fst (sort_key fst metadata))
           \<and> mset (sort_key fst metadata) = mset metadata
           \<and> (\<forall>k. filter (\<lambda>spec. fst spec = k) (sort_key fst metadata)
                    = filter (\<lambda>spec. fst spec = k) metadata)
           \<and> (\<forall>spec \<in> set metadata. int (length (field_text item spec)) = snd (snd (snd spec)))
           \<and> int (length line) = sum_list (map (\<lambda>spec. snd (snd (snd spec))) metadata)"
proof -
  have nonneg: "\<forall>spec \<in> set metadata. 0 \<le> snd (snd (snd spec))"
    using assms(2) by force
  from assms(1) have "lines = map (\<lambda>v. record_line metadata (the_dict v))
                                (filter is_dict (as_list json_data))"
    using process_items_Inr [of "as_list json_data" metadata "[]" "[]" lg lines]
    by (simp add: process_json_def)
  with assms(3) obtain v where v: "v \<in> set (as_list json_data)" "is_dict v"
    and line: "line = record_line metadata (the_dict v)"
    by auto
  from v(2) obtain item where item: "v = PDict item"
    by (cases v) (auto simp add: is_dict_def)
  have each: "int (length (field_text item spec)) = snd (snd (snd spec))"
    if "spec \<in> set metadata" for spec
  proof -
    obtain position field_name field_type L where s: "spec = (position, field_name, field_type, L)"
      by (cases spec) auto
    with that nonneg have "0 \<le> L" by auto
    with s show ?thesis by (simp add: length_field_text)
  qed
  have "PDict item \<in> set (as_list json_data)"
    using v(1) item by simp
  moreover have "line = concat (map (field_text item) (sort_key fst metadata))"
    using line item by (simp add: record_line_def the_dict_def)
  moreover have "int (length line) = sum_list (map (\<lambda>spec. snd (snd (snd spec))) metadata)"
    using line length_record_line [OF nonneg] by simp
  moreover have "sorted (map fst (sort_key fst metadata))"
    by simp
  moreover have "mset (sort_key fst metadata) = mset metadata"
    by simp
  moreover have "\<forall>k. filter (\<lambda>spec. fst spec = k) (sort_key fst metadata)
                    = filter (\<lambda>spec. fst spec = k) metadata"
    by (simp add: sort_key_stable)
  moreover have "\<forall>spec \<in> set metadata. int (length (field_text item spec)) = snd (snd (snd spec))"
    using each by blast
  ultimately show ?thesis
    by blast
qed

theorem line_is_concatenation_of_fixed_width_fields_witness:
  "process_json (PList [PInt 0, PDict [(''id'', PInt 42), (''b'', PStr ''xyz''), (''c'', PStr ''q'')]])
       [(2, ''b'', ''String'', 3), (1, ''id'', ''Number'', 5), (2, ''c'', ''String'', 2)]
     = ([(WARNING, ''Skipping item because it'' @ [CHR 0x27] @ ''s not a dictionary: 0'')],
        Inr [''42.0 xyzq ''])
   \<and> (0::int) < 3 \<and> (0::int) < 5 \<and> (0::int) < 2
   \<and> (\<exists>item. ''42.0 xyzq ''
         = concat (map (field_text item)
             (sort_key fst [(2, ''b'', ''String'', 3), (1, ''id'', ''Number'', 5), (2, ''c'', ''String'', 2)])))
   \<and> int (length ''42.0 xyzq '') = 3 + 5 + 2"
proof -
  let ?J = "PList [PInt 0, PDict [(''id'', PInt 42), (''b'', PStr ''xyz''), (''c'', PStr ''q'')]]"
  let ?M = "[(2, ''b'', ''String'', 3), (1, ''id'', ''Number'', 5), (2::int, ''c'', ''String'', 2::int)]"
  have run: "process_json ?J ?M
     = ([(WARNING, ''Skipping item because it'' @ [CHR 0x27] @ ''s not a dictionary: 0'')],
        Inr [''42.0 xyzq ''])"
    by (rule process_json_example)
  have pos: "\<forall>spec \<in> set ?M. 0 < snd (snd (snd spec))"
    by simp
  have mem: "''42.0 xyzq '' \<in> set [''42.0 xyzq '']"
    by simp
  from line_is_concatenation_of_fixed_width_fields [OF run pos mem]
  have ex: "\<exists>item. ''42.0 xyzq '' = concat (map (field_text item) (sort_key fst ?M))"
    by blast
  have len: "int (length ''42.0 xyzq '') = 3 + 5 + 2"
    by simp
  from run ex len show ?thesis
    by simp
qed

lemmas eval_parse =
  float_of_str_def strip_def is_space_def split_sign_def lower_def is_digit_def digit_val_def
  digits_val_def parse_exponent_def

lemma float_of_str_abc: "float_of_str ''abc'' = None"
  by (simp add: eval_parse)

lemma float_of_str_empty: "float_of_str '''' = None"
  by (simp add: eval_parse)

section \<open>Errors of the Number formatter\<close>

text \<open>
  A \<open>ValueError\<close> of \<open>float\<close> leaves \<open>format_number\<close> as the \<open>ValueError\<close> with the
  message \<open>Value is not a number\<close>, and so does a formatted number longer than the field.
\<close>

lemma format_number_not_a_number:
  assumes "py_float v = Inl (ValueError m)" and "v \<noteq> PStr ''''" and "v \<noteq> PNone"
  shows "format_number v L = Inl (ValueError (''Value is not a number: '' @ py_str v))"
  using assms by (simp add: format_number_def format_number_try_def)

lemma format_number_over_long:
  assumes "py_float v = Inr x" and "v \<noteq> PStr ''''" and "v \<noteq> PNone"
    and "split_char CHR ''.'' (float_str x) = [integer_part, decimal_part]"
    and "py_int integer_part = Inr n"
    and "L < int (length (format_comma n @ ''.'' @ decimal_part))"
  shows "format_number v L = Inl (ValueError (''Value is not a number: '' @ py_str v))"
  using assms by (simp add: format_number_def format_number_try_def)

text \<open>The record builder blanks a field whose formatting raised \<open>ValueError\<close>, and goes on.\<close>

lemma value_error_blanks_the_field:
  assumes "format_field (dict_get item field_name (PStr '''')) field_type L = Inl (ValueError msg)"
  shows "format_fields item ((position, field_name, field_type, L) # rest) acc lg
           = format_fields item rest (acc @ [spaces L])
               (lg @ [(ERROR, ''Error formatting field: '' @ msg)])"
  using assms by simp

lemma not_a_number_example:
  "process_json (PDict [(''id'', PStr ''abc''), (''name'', PStr ''bob'')])
       [(1, ''id'', ''Number'', 5), (2, ''name'', ''String'', 3)]
     = ([(ERROR, ''Error formatting field: Value is not a number: abc'')], Inr [''     bob''])"
  by (simp add: process_json_def as_list_def format_field_def format_number_def
      format_number_try_def py_float_def float_of_str_abc dict_get_def eval_text)

text \<open>Only \<open>ValueError\<close> is caught: any other exception of a field ends the loop.\<close>

lemma uncaught_error_leaves_format_fields:
  assumes "format_field (dict_get item field_name (PStr '''')) field_type L = Inl e"
    and "\<forall>msg. e \<noteq> ValueError msg"
  shows "format_fields item ((position, field_name, field_type, L) # rest) acc lg = (lg, Inl e)"
  using assms by (cases e) simp_all

text \<open>
  Claim C2, at the input \<open>[{"id": [1, 2], "name": "bob"}]\<close> with the rows
  \<open>(1, id, Number, 5)\<close> and \<open>(2, name, String, 3)\<close>: the value of the Number field is
  not a number, yet no blank field is substituted and no record is produced, because
  \<open>float\<close> raises \<open>TypeError\<close>, which neither \<open>format_number\<close> nor \<open>process_json\<close>
  catches.
\<close>

theorem list_valued_number_field_is_not_blanked:
  "format_number (PList [PInt 1, PInt 2]) 5
     = Inl (TypeError (''float() argument must be a string or a real number, not ''
              @ [CHR 0x27] @ ''list'' @ [CHR 0x27]))
   \<and> process_json (PList [PDict [(''id'', PList [PInt 1, PInt 2]), (''name'', PStr ''bob'')]])
         [(1, ''id'', ''Number'', 5), (2, ''name'', ''String'', 3)]
     = ([], Inl (TypeError (''float() argument must be a string or a real number, not ''
                   @ [CHR 0x27] @ ''list'' @ [CHR 0x27])))"
  by (simp add: process_json_def as_list_def format_field_def format_number_def
      format_number_try_def py_float_def type_name_def dict_get_def)

text \<open>The same for a JSON integer beyond the range of a double: \<open>OverflowError\<close>.\<close>

lemma float_of_int_overflow:
  "float_of_int (10 ^ 309) = Inl (OverflowError ''int too large to convert to float'')"
  by (simp add: eval_float)

lemma huge_integer_number_field_is_not_blanked:
  "process_json (PList [PDict [(''id'', PInt (10 ^ 309))]]) [(1, ''id'', ''Number'', 5)]
     = ([], Inl (OverflowError ''int too large to convert to float''))"
  by (simp add: process_json_def as_list_def format_field_def format_number_def
      format_number_try_def py_float_def float_of_int_overflow [simplified] dict_get_def)

section \<open>One line per object\<close>

lemma process_json_wraps_non_list:
  "(\<forall>xs. json_data \<noteq> PList xs) \<Longrightarrow>
   process_json json_data metadata = process_json (PList [json_data]) metadata"
  by (cases json_data) (simp_all add: process_json_def as_list_def)

text \<open>
  When no field of any object raises an exception other than \<open>ValueError\<close>, the record
  builder returns one line per object, in the order of the input.
\<close>

lemma process_json_one_line_per_object:
  assumes "\<forall>v \<in> set (as_list json_data).
             is_dict v \<longrightarrow> (\<forall>spec \<in> set metadata. \<not> uncaught (the_dict v) spec)"
  shows "\<exists>lg. process_json json_data metadata
           = (lg, Inr (map (\<lambda>v. record_line metadata (the_dict v))
                        (filter is_dict (as_list json_data))))"
  using process_items_no_uncaught [OF assms, of "[]" "[]"]
  by (simp add: process_json_def)

text \<open>
  Claim C6, at the input \<open>[{"id": 7.0}, 3, {"id": []}]\<close> with the row
  \<open>(1, id, Number, 5)\<close>: two elements are objects, the element \<open>3\<close> is skipped with a
  warning, and then the \<open>TypeError\<close> of the third element ends \<open>process_json\<close> with no
  line at all.
\<close>

theorem objects_get_no_line_after_uncaught_error:
  "process_json (PList [PDict [(''id'', PFloat (Finite False 7 0))], PInt 3, PDict [(''id'', PList [])]])
       [(1, ''id'', ''Number'', 5)]
     = ([(WARNING, ''Skipping item because it'' @ [CHR 0x27] @ ''s not a dictionary: 3'')],
        Inl (TypeError (''float() argument must be a string or a real number, not ''
               @ [CHR 0x27] @ ''list'' @ [CHR 0x27])))"
  by (simp add: process_json_def as_list_def format_field_def format_number_def
      format_number_try_def py_float_def type_name_def dict_get_def eval_text)

section \<open>The file emitter\<close>


lemma length_dec_le: "n < 10 ^ Suc k \<Longrightarrow> length (dec n) \<le> Suc k"
proof (induction n arbitrary: k rule: dec.induct)
  case (1 n)
  show ?case
  proof (cases "n < 10")
    case True
    then show ?thesis by (simp add: dec_small)
  next
    case False
    with "1.prems" obtain j where k: "k = Suc j"
      by (cases k) auto
    with "1.prems" have "n div 10 < 10 ^ Suc j"
      by (simp add: less_mult_imp_div_less)
    with "1.IH" False have "length (dec (n div 10)) \<le> Suc j"
      by simp
    with False k show ?thesis
      by (simp add: dec_large)
  qed
qed

lemma length_format_06: "length (format_06 n) = max 6 (length (dec n))"
  by (simp add: format_06_def zero_pad_def)

lemma length_format_06_six_digits: "n \<le> 999999 \<Longrightarrow> length (format_06 n) = 6"
proof -
  assume "n \<le> 999999"
  then have "n < 10 ^ Suc 5" by simp
  then have "length (dec n) \<le> Suc 5" by (rule length_dec_le)
  then show ?thesis by (simp add: length_format_06)
qed

lemma dec_short_for_big: "1000 \<le> n \<Longrightarrow> length (dec n) + 255 \<le> n"
proof (induction n rule: dec.induct)
  case (1 n)
  show ?case
  proof (cases "n < 10000")
    case True
    then have "n < 10 ^ Suc 3" by simp
    then have "length (dec n) \<le> Suc 3" by (rule length_dec_le)
    with "1.prems" show ?thesis by simp
  next
    case False
    then have "1000 \<le> n div 10" by simp
    with "1.IH" False have "length (dec (n div 10)) + 255 \<le> n div 10" by simp
    moreover have "dec n = dec (n div 10) @ [digit_char (n mod 10)]"
      using False by (simp add: dec_large)
    ultimately show ?thesis using False by simp
  qed
qed

lemma header_fits:
  assumes "length name \<le> 255" and "length name + 6 \<le> w"
  shows "length (format_06 w) + length name \<le> w"
proof (cases "w \<le> 999999")
  case True
  with assms(2) show ?thesis by (simp add: length_format_06_six_digits)
next
  case False
  then have "length (dec w) + 255 \<le> w" by (intro dec_short_for_big) simp
  with assms show ?thesis by (simp add: length_format_06)
qed

lemma max_data_row_length_eq:
  "max_data_row_length lines = Max (insert 0 (length ` set lines))"
proof (cases lines)
  case Nil
  then show ?thesis by (simp add: max_data_row_length_def)
next
  case (Cons l ls)
  then have "Max (insert 0 (length ` set lines)) = max 0 (Max (length ` set lines))"
    by (intro Max_insert) auto
  then show ?thesis using Cons by (simp add: max_data_row_length_def)
qed

lemma line_le_max_row_length:
  "line \<in> set lines \<Longrightarrow> length line \<le> max_row_length name lines"
proof -
  assume "line \<in> set lines"
  then have "length line \<le> Max (insert 0 (length ` set lines))"
    by (intro Max_ge) auto
  then show ?thesis
    by (simp add: max_row_length_def max_data_row_length_eq)
qed

lemma length_header_line:
  assumes "length name \<le> 255"
  shows "length (header_line name lines) = max_row_length name lines"
proof -
  have "length name + 6 \<le> max_row_length name lines"
    by (simp add: max_row_length_def)
  from header_fits [OF assms this] show ?thesis
    by (simp add: header_line_def length_ljust Let_def)
qed

section \<open>Digits, signs and separators\<close>

lemma digit_char_in_digits: "digit_char d \<in> set ''0123456789''"
proof -
  have "d mod 10 < length ''0123456789''" by simp
  then show ?thesis
    unfolding digit_char_def by (rule nth_mem)
qed

lemma is_digit_digit_char: "is_digit (digit_char d)"
  using digit_char_in_digits [of d] by (auto simp add: is_digit_def)

lemma list_all_is_digit_dec: "list_all is_digit (dec n)"
proof (induction n rule: dec.induct)
  case (1 n)
  show ?case
  proof (cases "n < 10")
    case True
    then show ?thesis by (simp add: dec_small is_digit_digit_char)
  next
    case False
    with "1.IH" show ?thesis by (simp add: dec_large is_digit_digit_char)
  qed
qed

lemma is_digit_not_special:
  assumes "is_digit c"
  shows "c \<noteq> CHR ''.''" and "c \<noteq> CHR ''-''" and "c \<noteq> CHR ''+''" and "c \<noteq> CHR ''_''"
    and "c \<noteq> CHR '',''" and "c \<noteq> CHR ''e''" and "\<not> is_space c"
  using assms by (auto simp add: is_digit_def is_space_def Let_def)

lemma digits_have_no:
  assumes "list_all is_digit ds"
  shows "CHR ''.'' \<notin> set ds" and "CHR ''-'' \<notin> set ds"
  using assms is_digit_not_special(1,2) by (auto simp add: list_all_iff)


lemma split_char_no_separator: "c \<notin> set s \<Longrightarrow> split_char c s = [s]"
  by (induction s) auto

lemma split_char_one_separator:
  "c \<notin> set a \<Longrightarrow> c \<notin> set b \<Longrightarrow> split_char c (a @ c # b) = [a, b]"
  by (induction a) (auto simp add: split_char_no_separator)

lemma strip_unchanged:
  assumes "t \<noteq> []" and "\<not> is_space (hd t)" and "\<not> is_space (last t)"
  shows "strip t = t"
proof -
  have "dropWhile is_space t = t"
    using assms(2) by (simp add: dropWhile_eq_self_iff)
  moreover have "dropWhile is_space (rev t) = rev t"
    using assms(3) by (simp add: dropWhile_eq_self_iff hd_rev)
  ultimately show ?thesis by (simp add: strip_def)
qed

lemma drop_underscores_digits:
  "list_all is_digit ds \<Longrightarrow> drop_underscores prev ds = Some ds"
  by (induction ds arbitrary: prev) (auto simp add: is_digit_not_special(4))

text \<open>\<open>int\<close> reads a text of an optional minus sign and digits as the specification does.\<close>

lemma py_int_spec_int:
  assumes "spec_int t = Some n"
  shows "py_int t = Inr n"
proof -
  from assms obtain c cs where t: "t = c # cs"
    by (cases t) (auto simp add: spec_int_def)
  show ?thesis
  proof (cases "c = CHR ''-''")
    case True
    with assms t have cs: "cs \<noteq> []" "list_all is_digit cs" and n: "n = - int (digits_val cs)"
      by (auto simp add: spec_int_def split: if_splits)
    from cs have "is_digit (last cs)"
      by (simp add: list_all_iff)
    then have "\<not> is_space (last t)"
      using t cs(1) by (simp add: is_digit_not_special(7))
    moreover have "\<not> is_space (hd t)"
      using t True by (simp add: is_space_def)
    ultimately have "strip t = t"
      using t by (intro strip_unchanged) simp_all
    with t True cs n show ?thesis
      by (simp add: py_int_def split_sign_def drop_underscores_digits)
  next
    case False
    with assms t have ds: "list_all is_digit t" and n: "n = int (digits_val t)"
      by (auto simp add: spec_int_def split: if_splits)
    from ds t have c: "is_digit c" and l: "is_digit (last t)"
      by (simp_all add: list_all_iff)
    have "strip t = t"
      using t c l by (intro strip_unchanged) (simp_all add: is_digit_not_special(7))
    moreover have "split_sign t = (False, t)"
      using t c by (simp add: split_sign_def is_digit_not_special(2,3))
    moreover have "drop_underscores None t = Some t"
      using ds by (rule drop_underscores_digits)
    ultimately show ?thesis
      using ds n t by (simp add: py_int_def)
  qed
qed

section \<open>Comma grouping\<close>





lemma digit_char_mod: "digit_char (n mod 10) = digit_char n"
  by (simp add: digit_char_def)





section \<open>The text of a float\<close>

lemma float_digits_are_digits:
  assumes "float_digits m e = (ds, decpt)"
  shows "list_all is_digit ds" and "ds \<noteq> []"
proof -
  let ?sig = "rev (dropWhile (\<lambda>c. c = CHR ''0'') (rev (dec m)))"
  have "set ?sig \<subseteq> set (dec m)"
    using set_dropWhileD [of _ "\<lambda>c. c = CHR ''0''" "rev (dec m)"] by auto
  then have sig: "list_all is_digit ?sig"
    using list_all_is_digit_dec [of m] by (auto simp add: list_all_iff)
  have zero: "list_all is_digit ''0''"
    by (simp add: is_digit_def)
  from assms have "ds = (if ?sig = [] then ''0'' else ?sig)"
    by (auto simp add: float_digits_def Let_def split: if_splits)
  with sig zero show "list_all is_digit ds" and "ds \<noteq> []"
    by (auto split: if_splits)
qed






lemma py_float_Inr_not_blank:
  assumes "py_float v = Inr x"
  shows "v \<noteq> PStr ''''" and "v \<noteq> PNone"
  using assms by (auto simp add: py_float_def float_of_str_empty)

section \<open>Formatting a number\<close>

lemma format_number_try_fits:
  assumes "py_float v = Inr x"
    and "split_char CHR ''.'' (float_str x) = [integer_part, decimal_part]"
    and "py_int integer_part = Inr n"
    and "int (length (format_comma n @ ''.'' @ decimal_part)) \<le> L"
  shows "format_number_try v L = Inr (ljust (format_comma n @ ''.'' @ decimal_part) L)"
  using assms by (simp add: format_number_try_def Let_def)









text \<open>
  A float whose text has no decimal point has no such string: an exponent text with a
  one-digit mantissa, an infinity, a NaN. \<open>format_number\<close> raises \<open>ValueError\<close> for it.
\<close>

lemma text_without_point_is_rejected:
  "float_str (Finite False 1 16) = ''1e+16''
   \<and> spec_number_text ''1e+16'' = None
   \<and> format_number (PFloat (Finite False 1 16)) 30
       = Inl (ValueError ''Value is not a number: 1e+16'')
   \<and> format_number (PFloat (Infinite False)) 30
       = Inl (ValueError ''Value is not a number: inf'')"
  by (simp add: format_number_def format_number_try_def py_float_def spec_number_text_def
      eval_text)

section \<open>Writing the files\<close>

lemma process_json_42:
  "process_json (PList [PDict [(''id'', PInt 42)]]) [(1, ''id'', ''Number'', 5)]
     = ([], Inr [''42.0 ''])"
  by (simp add: process_json_def as_list_def format_field_def format_number_42 dict_get_def)

lemma basename_example: "basename ''data/in.json'' = ''in.json''"
  by (simp add: basename_def)

lemma max_row_length_example: "max_row_length ''in.json'' [''42.0 ''] = 13"
  by (simp add: max_row_length_def max_data_row_length_def)

lemma format_06_example: "format_06 13 = ''000013''"
  by (simp add: format_06_def eval_text)

lemma header_line_example: "header_line ''in.json'' [''42.0 ''] = ''000013in.json''"
  by (simp add: header_line_def max_row_length_example format_06_example ljust_def)

lemma ljust_as_padding: "ljust line (int w) = line @ replicate (w - length line) CHR '' ''"
  by (simp add: ljust_def)

text \<open>
  With an empty \<open>resultPath4IFF\<close> the first \<open>os.makedirs\<close> raises and nothing is
  written; when \<open>open\<close> raises for the primary file, only the directory was made.
\<close>

lemma empty_result_path_writes_nothing:
  assumes "process_json json_data metadata = (lg0, Inr lines)"
    and "config ''resultPath4IFF'' = Some ''''"
  shows "main fs config json_path json_data metadata
           = (lg0, [], Some (FileNotFoundError (''[Errno 2] No such file or directory: ''
                                @ [CHR 0x27, CHR 0x27])))"
  using assms by (simp add: main_def Let_def os_makedirs_def repr_str_def)

lemma failed_makedirs_writes_nothing:
  assumes "process_json json_data metadata = (lg0, Inr lines)"
    and "config ''resultPath4IFF'' = Some result_path"
    and "os_makedirs fs result_path = Some e"
  shows "main fs config json_path json_data metadata = (lg0, [], Some e)"
  using assms by (simp add: main_def Let_def)

text \<open>
  Claim C7. For every run in which the record builder has returned its lines and the
  primary file can be made (\<open>os.makedirs\<close> and \<open>open\<close> raise nothing for it; the base
  name of the JSON file is no longer than a file name can be): \<open>maxRowLength\<close> is the
  larger of the longest line's length (0 without lines) and the base name's length plus
  6; the header is \<open>maxRowLength\<close> in decimal, zero-padded to six digits, then the base
  name, then spaces up to exactly \<open>maxRowLength\<close> characters; \<open>main\<close> makes the result
  directory and writes to the primary file the header followed by each line padded with
  spaces to \<open>maxRowLength\<close>; whatever it does after that concerns the backup only, and
  the primary file keeps this content unless the backup file is the very same file.
\<close>

theorem primary_file_is_header_then_padded_lines:
  assumes "process_json json_data metadata = (lg0, Inr lines)"
    and "config ''resultPath4IFF'' = Some result_path"
    and "length (basename json_path) \<le> 255"
    and "os_makedirs fs result_path = None"
    and "open_for_writing fs
           (path_join result_path
              ((case config ''extractFile4IFF'' of None \<Rightarrow> ''output'' | Some v \<Rightarrow> v) @ ''.iff''))
         = None"
  shows "let name = basename json_path;
             w = max_row_length name lines;
             header = header_line name lines;
             file_name = (case config ''extractFile4IFF'' of None \<Rightarrow> ''output'' | Some v \<Rightarrow> v)
                           @ ''.iff'';
             file = path_join result_path file_name;
             content = header @ concat (map (\<lambda>line. line @ replicate (w - length line) CHR '' '')
                                          lines);
             backup_path = (case config ''resultBackupPath4CSV'' of None \<Rightarrow> '''' | Some v \<Rightarrow> v);
             backup_file = path_join backup_path file_name
         in w = max (Max (insert 0 (length ` set lines))) (length name + 6)
            \<and> header = format_06 w @ name
                         @ replicate (w - length (format_06 w) - length name) CHR '' ''
            \<and> length header = w
            \<and> (w \<le> 999999 \<longrightarrow> length (format_06 w) = 6)
            \<and> (\<forall>line \<in> set lines. length (line @ replicate (w - length line) CHR '' '') = w)
            \<and> (\<exists>lg rest err.
                  main fs config json_path json_data metadata
                    = (lg, Makedirs result_path # Write file content # rest, err)
                  \<and> (backup_path = '''' \<longrightarrow> rest = [] \<and> err = None)
                  \<and> set rest \<subseteq> {Makedirs backup_path,
                                  Write backup_file (header @ concat lines)}
                  \<and> (backup_path = '''' \<or> realpath fs backup_file \<noteq> realpath fs file \<longrightarrow>
                       written fs (Makedirs result_path # Write file content # rest) old_files
                         (realpath fs file) = Some content))"
proof -
  let ?name = "basename json_path"
  let ?w = "max_row_length ?name lines"
  have w: "?w = max (Max (insert 0 (length ` set lines))) (length ?name + 6)"
    by (simp add: max_row_length_def max_data_row_length_eq)
  have header: "header_line ?name lines
                  = format_06 ?w @ ?name
                      @ replicate (?w - length (format_06 ?w) - length ?name) CHR '' ''"
    by (simp add: header_line_def ljust_def Let_def)
  have len: "length (header_line ?name lines) = ?w"
    using assms(3) by (rule length_header_line)
  have six: "?w \<le> 999999 \<longrightarrow> length (format_06 ?w) = 6"
    by (simp add: length_format_06_six_digits)
  have each: "\<forall>line \<in> set lines. length (line @ replicate (?w - length line) CHR '' '') = ?w"
    using line_le_max_row_length [of _ lines ?name] by simp
  let ?file_name = "(case config ''extractFile4IFF'' of None \<Rightarrow> ''output'' | Some v \<Rightarrow> v) @ ''.iff''"
  let ?file = "path_join result_path ?file_name"
  let ?content = "header_line ?name lines
                    @ concat (map (\<lambda>line. line @ replicate (?w - length line) CHR '' '') lines)"
  let ?backup_path = "(case config ''resultBackupPath4CSV'' of None \<Rightarrow> '''' | Some v \<Rightarrow> v)"
  let ?backup_file = "path_join ?backup_path ?file_name"
  have run: "\<exists>lg rest err.
      main fs config json_path json_data metadata
        = (lg, Makedirs result_path # Write ?file ?content # rest, err)
      \<and> (?backup_path = '''' \<longrightarrow> rest = [] \<and> err = None)
      \<and> set rest \<subseteq> {Makedirs ?backup_path,
                      Write ?backup_file (header_line ?name lines @ concat lines)}
      \<and> (?backup_path = '''' \<or> realpath fs ?backup_file \<noteq> realpath fs ?file \<longrightarrow>
           written fs (Makedirs result_path # Write ?file ?content # rest) old_files
             (realpath fs ?file) = Some ?content)"
  proof (cases "?backup_path = ''''")
    case True
    with assms show ?thesis
      by (simp add: main_def Let_def ljust_as_padding)
  next
    case False
    show ?thesis
    proof (cases "os_makedirs fs ?backup_path")
      case (Some e)
      with False assms show ?thesis
        by (simp add: main_def Let_def ljust_as_padding)
    next
      case None
      show ?thesis
      proof (cases "open_for_writing fs ?backup_file")
        case (Some e)
        with None False assms show ?thesis
          by (simp add: main_def Let_def ljust_as_padding)
      next
        case ok: None
        with None False assms show ?thesis
          by (simp add: main_def Let_def ljust_as_padding)
      qed
    qed
  qed
  from w header len six each run show ?thesis
    unfolding Let_def by (intro conjI)
qed

theorem primary_file_is_header_then_padded_lines_witness:
  "process_json (PList [PDict [(''id'', PInt 42)]]) [(1, ''id'', ''Number'', 5)]
     = ([], Inr [''42.0 ''])
   \<and> [''resultPath4IFF'' \<mapsto> ''out''] ''resultPath4IFF'' = Some ''out''
   \<and> length (basename ''data/in.json'') \<le> 255
   \<and> os_makedirs \<lparr>makedirs_error = \<lambda>p. None, open_error = \<lambda>p. None, realpath = \<lambda>p. p\<rparr> ''out''
       = None
   \<and> open_for_writing \<lparr>makedirs_error = \<lambda>p. None, open_error = \<lambda>p. None, realpath = \<lambda>p. p\<rparr>
         ''out/output.iff'' = None
   \<and> max_row_length (basename ''data/in.json'') [''42.0 ''] = 13
   \<and> (13::nat) \<le> 999999 \<and> length (format_06 13) = 6
   \<and> header_line (basename ''data/in.json'') [''42.0 ''] = ''000013in.json''
   \<and> (\<exists>lg.
         main \<lparr>makedirs_error = \<lambda>p. None, open_error = \<lambda>p. None, realpath = \<lambda>p. p\<rparr>
           [''resultPath4IFF'' \<mapsto> ''out''] ''data/in.json''
           (PList [PDict [(''id'', PInt 42)]]) [(1, ''id'', ''Number'', 5)]
         = (lg, [Makedirs ''out'', Write ''out/output.iff'' ''000013in.json42.0         ''],
            None))
   \<and> written \<lparr>makedirs_error = \<lambda>p. None, open_error = \<lambda>p. None, realpath = \<lambda>p. p\<rparr>
         [Makedirs ''out'', Write ''out/output.iff'' ''000013in.json42.0         '']
         Map.empty ''out/output.iff''
       = Some ''000013in.json42.0         ''"
proof -
  let ?fs = "\<lparr>makedirs_error = \<lambda>p. None, open_error = \<lambda>p. None, realpath = \<lambda>p. p\<rparr>"
  let ?cfg = "[''resultPath4IFF'' \<mapsto> ''out'']"
  have cfg: "?cfg ''resultPath4IFF'' = Some ''out''"
    by simp
  have len: "length (basename ''data/in.json'') \<le> 255"
    by (simp add: basename_example)
  have paths: "path_join ''out'' ''output.iff'' = ''out/output.iff''"
    by (simp add: path_join_def)
  have mk: "os_makedirs ?fs ''out'' = None"
    by (simp add: os_makedirs_def)
  have op: "open_for_writing ?fs
              (path_join ''out''
                 ((case ?cfg ''extractFile4IFF'' of None \<Rightarrow> ''output'' | Some v \<Rightarrow> v) @ ''.iff''))
            = None"
    by (simp add: open_for_writing_def paths)
  show ?thesis
    using primary_file_is_header_then_padded_lines
            [where config = ?cfg and json_path = "''data/in.json''" and fs = ?fs
               and old_files = Map.empty, OF process_json_42 cfg len mk op]
    unfolding Let_def
    by (simp add: process_json_42 basename_example max_row_length_example format_06_example
        header_line_example paths replicate_numeral_eval os_makedirs_def open_for_writing_def)
qed

lemma concat_padded_longer:
  assumes "\<exists>line \<in> set lines. length line < w"
  shows "length (concat lines)
           < length (concat (map (\<lambda>line. line @ replicate (w - length line) CHR '' '') lines))"
  using assms
proof (induction lines)
  case Nil
  then show ?case by simp
next
  case (Cons l ls)
  have le: "length (concat ls)
              \<le> length (concat (map (\<lambda>line. line @ replicate (w - length line) CHR '' '') ls))"
    by (induction ls) auto
  show ?case
  proof (cases "length l < w")
    case True
    with le show ?thesis by simp
  next
    case False
    with Cons.prems have "\<exists>line \<in> set ls. length line < w" by auto
    from Cons.IH [OF this] show ?thesis by simp
  qed
qed

text \<open>
  Claim C8. For every run with a backup path configured in which both files can be made,
  \<open>main\<close> writes to the backup file the same header followed by the lines as they are,
  not padded to \<open>maxRowLength\<close>, after having written the padded lines to the primary
  file; when some line is shorter than \<open>maxRowLength\<close> the content written to the backup
  file differs from the content written to the primary file. After the run the backup
  file holds the unpadded content, and the primary file the padded content unless it is
  the very same file.
\<close>

theorem backup_file_has_unpadded_lines:
  assumes "process_json json_data metadata = (lg0, Inr lines)"
    and "config ''resultPath4IFF'' = Some result_path"
    and "config ''resultBackupPath4CSV'' = Some backup_path"
    and "backup_path \<noteq> ''''"
    and "os_makedirs fs result_path = None"
    and "open_for_writing fs
           (path_join result_path
              ((case config ''extractFile4IFF'' of None \<Rightarrow> ''output'' | Some v \<Rightarrow> v) @ ''.iff''))
         = None"
    and "os_makedirs fs backup_path = None"
    and "open_for_writing fs
           (path_join backup_path
              ((case config ''extractFile4IFF'' of None \<Rightarrow> ''output'' | Some v \<Rightarrow> v) @ ''.iff''))
         = None"
  shows "let name = basename json_path;
             w = max_row_length name lines;
             header = header_line name lines;
             file_name = (case config ''extractFile4IFF'' of None \<Rightarrow> ''output'' | Some v \<Rightarrow> v)
                           @ ''.iff'';
             file = path_join result_path file_name;
             backup_file = path_join backup_path file_name;
             primary_content =
               header @ concat (map (\<lambda>line. line @ replicate (w - length line) CHR '' '') lines);
             backup_content = header @ concat lines;
             effects = [Makedirs result_path, Write file primary_content,
                        Makedirs backup_path, Write backup_file backup_content]
         in (\<exists>lg. main fs config json_path json_data metadata = (lg, effects, None))
            \<and> ((\<exists>line \<in> set lines. length line < w) \<longrightarrow> backup_content \<noteq> primary_content)
            \<and> written fs effects old_files (realpath fs backup_file) = Some backup_content
            \<and> (realpath fs backup_file \<noteq> realpath fs file \<longrightarrow>
                 written fs effects old_files (realpath fs file) = Some primary_content)"
proof -
  let ?w = "max_row_length (basename json_path) lines"
  let ?header = "header_line (basename json_path) lines"
  let ?file_name = "(case config ''extractFile4IFF'' of None \<Rightarrow> ''output'' | Some v \<Rightarrow> v) @ ''.iff''"
  let ?primary = "?header @ concat (map (\<lambda>line. line @ replicate (?w - length line) CHR '' '') lines)"
  let ?backup = "?header @ concat lines"
  let ?effects = "[Makedirs result_path, Write (path_join result_path ?file_name) ?primary,
                   Makedirs backup_path, Write (path_join backup_path ?file_name) ?backup]"
  have run: "\<exists>lg. main fs config json_path json_data metadata = (lg, ?effects, None)"
    using assms by (simp add: main_def Let_def ljust_as_padding)
  have differ: "?backup \<noteq> ?primary" if "\<exists>line \<in> set lines. length line < ?w"
  proof
    assume "?backup = ?primary"
    then have "length (concat lines)
                 = length (concat (map (\<lambda>line. line @ replicate (?w - length line) CHR '' '') lines))"
      by simp
    with concat_padded_longer [OF that] show False by simp
  qed
  have last_write: "written fs ?effects old_files (realpath fs (path_join backup_path ?file_name))
                      = Some ?backup"
    by simp
  have first_write: "written fs ?effects old_files (realpath fs (path_join result_path ?file_name))
                       = Some ?primary"
    if "realpath fs (path_join backup_path ?file_name)
          \<noteq> realpath fs (path_join result_path ?file_name)"
    using that by simp
  from run differ last_write first_write show ?thesis
    unfolding Let_def by blast
qed

theorem backup_file_has_unpadded_lines_witness:
  "process_json (PList [PDict [(''id'', PInt 42)]]) [(1, ''id'', ''Number'', 5)]
     = ([], Inr [''42.0 ''])
   \<and> length ''42.0 '' < max_row_length (basename ''data/in.json'') [''42.0 '']
   \<and> (\<exists>lg.
         main \<lparr>makedirs_error = \<lambda>p. None, open_error = \<lambda>p. None, realpath = \<lambda>p. p\<rparr>
           [''resultPath4IFF'' \<mapsto> ''out'', ''resultBackupPath4CSV'' \<mapsto> ''bak'']
           ''data/in.json'' (PList [PDict [(''id'', PInt 42)]]) [(1, ''id'', ''Number'', 5)]
         = (lg, [Makedirs ''out'', Write ''out/output.iff'' ''000013in.json42.0         '',
                 Makedirs ''bak'', Write ''bak/output.iff'' ''000013in.json42.0 ''], None))
   \<and> ''000013in.json42.0 '' \<noteq> ''000013in.json42.0         ''
   \<and> ''bak/output.iff'' \<noteq> ''out/output.iff''
   \<and> written \<lparr>makedirs_error = \<lambda>p. None, open_error = \<lambda>p. None, realpath = \<lambda>p. p\<rparr>
         [Makedirs ''out'', Write ''out/output.iff'' ''000013in.json42.0         '',
          Makedirs ''bak'', Write ''bak/output.iff'' ''000013in.json42.0 '']
         Map.empty ''out/output.iff''
       = Some ''000013in.json42.0         ''"
proof -
  let ?fs = "\<lparr>makedirs_error = \<lambda>p. None, open_error = \<lambda>p. None, realpath = \<lambda>p. p\<rparr>"
  let ?cfg = "[''resultPath4IFF'' \<mapsto> ''out'', ''resultBackupPath4CSV'' \<mapsto> ''bak'']"
  have cfg: "?cfg ''resultPath4IFF'' = Some ''out''"
    by simp
  have bak: "?cfg ''resultBackupPath4CSV'' = Some ''bak''"
    by simp
  have ne: "''bak'' \<noteq> ''''"
    by simp
  have paths: "path_join ''out'' ''output.iff'' = ''out/output.iff''"
    "path_join ''bak'' ''output.iff'' = ''bak/output.iff''"
    by (simp_all add: path_join_def)
  have mk: "os_makedirs ?fs ''out'' = None" "os_makedirs ?fs ''bak'' = None"
    by (simp_all add: os_makedirs_def)
  have op: "open_for_writing ?fs
              (path_join ''out''
                 ((case ?cfg ''extractFile4IFF'' of None \<Rightarrow> ''output'' | Some v \<Rightarrow> v) @ ''.iff''))
            = None"
    "open_for_writing ?fs
              (path_join ''bak''
                 ((case ?cfg ''extractFile4IFF'' of None \<Rightarrow> ''output'' | Some v \<Rightarrow> v) @ ''.iff''))
            = None"
    by (simp_all add: open_for_writing_def paths)
  show ?thesis
    using backup_file_has_unpadded_lines
            [where config = ?cfg and json_path = "''data/in.json''" and fs = ?fs
               and old_files = Map.empty, OF process_json_42 cfg bak ne mk(1) op(1) mk(2) op(2)]
    unfolding Let_def
    by (simp add: process_json_42 basename_example max_row_length_example format_06_example
        header_line_example paths replicate_numeral_eval)
qed

text \<open>
  When the backup path names the directory of the primary file, the second write goes to
  the same file: after the run it holds the unpadded lines.
\<close>

lemma backup_over_primary:
  assumes "realpath fs backup_file = realpath fs file"
  shows "written fs [Makedirs result_path, Write file primary_content,
                     Makedirs backup_path, Write backup_file backup_content] old_files
           (realpath fs file) = Some backup_content"
  using assms by simp

section \<open>Negative numbers above minus one\<close>

lemma dec_upper: "n < 10 ^ length (dec n)"
proof (induction n rule: dec.induct)
  case (1 n)
  show ?case
  proof (cases "n < 10")
    case True
    then show ?thesis by (simp add: dec_small)
  next
    case False
    with "1.IH" have "n div 10 < 10 ^ length (dec (n div 10))" by simp
    then have "n < 10 * 10 ^ length (dec (n div 10))"
      by (simp add: div_less_iff_less_mult mult.commute)
    with False show ?thesis by (simp add: dec_large)
  qed
qed

lemma digit_char_zero_iff: "digit_char d = CHR ''0'' \<longleftrightarrow> d mod 10 = 0"
proof -
  have "distinct ''0123456789''" by simp
  moreover have "d mod 10 < length ''0123456789''" by simp
  moreover have "0 < length ''0123456789''" by simp
  ultimately have "''0123456789'' ! (d mod 10) = ''0123456789'' ! 0 \<longleftrightarrow> d mod 10 = 0"
    by (rule nth_eq_iff_index_eq)
  then show ?thesis by (simp add: digit_char_def)
qed

lemma dec_has_nonzero_digit: "0 < n \<Longrightarrow> \<exists>c \<in> set (dec n). c \<noteq> CHR ''0''"
proof (induction n rule: dec.induct)
  case (1 n)
  show ?case
  proof (cases "n < 10")
    case True
    with "1.prems" show ?thesis by (simp add: dec_small digit_char_zero_iff)
  next
    case False
    then have "0 < n div 10" by simp
    with "1.IH" False obtain c where "c \<in> set (dec (n div 10))" "c \<noteq> CHR ''0''" by auto
    with False show ?thesis by (auto simp add: dec_large)
  qed
qed

lemma float_digits_positive:
  assumes "0 < m"
  shows "\<exists>ds. float_digits m e = (ds, e + int (length (dec m))) \<and> ds \<noteq> [] \<and> list_all is_digit ds"
proof -
  from dec_has_nonzero_digit [OF assms]
  have "float_digits m e
          = (rev (dropWhile (\<lambda>c. c = CHR ''0'') (rev (dec m))), e + int (length (dec m)))"
    by (auto simp add: float_digits_def Let_def)
  with float_digits_are_digits [OF this] show ?thesis by simp
qed

text \<open>
  A float strictly between \<open>-1\<close> and \<open>-0.0001\<close> included has its decimal point zero to
  three places to the left of its digits.
\<close>

lemma decpt_between_minus_one_and_minus_1e_4:
  assumes "float_val (Finite neg m e) = Some r" and "- 1 < r" and "r \<le> - 1 / 10000"
  shows "neg \<and> 0 < m \<and> e + int (length (dec m)) \<le> 0 \<and> - 4 < e + int (length (dec m))"
proof -
  define p :: rat where "p = (if 0 \<le> e then 10 ^ nat e else 1 / 10 ^ nat (- e))"
  have p: "0 < p"
    by (simp add: p_def)
  from assms(1) have r: "r = (if neg then - 1 else 1) * of_nat m * p"
    by (simp add: float_val_def p_def)
  from assms(3) have neg_r: "r < 0"
    by simp
  have neg: neg
  proof (rule ccontr)
    assume "\<not> neg"
    with r p have "0 \<le> r" by simp
    with neg_r show False by simp
  qed
  have m: "0 < m"
  proof (rule ccontr)
    assume "\<not> 0 < m"
    with r have "r = 0" by simp
    with neg_r show False by simp
  qed
  from r neg have abs: "of_nat m * p = - r"
    by simp
  with assms(2,3) have lt: "of_nat m * p < 1" and ge: "1 / 10000 \<le> of_nat m * p"
    by simp_all
  have e: "e < 0"
  proof (rule ccontr)
    assume "\<not> e < 0"
    then have "1 \<le> p" by (simp add: p_def)
    moreover from m have "(1::rat) \<le> of_nat m" by simp
    ultimately have "1 * 1 \<le> of_nat m * p"
      by (intro mult_mono) simp_all
    with lt show False by simp
  qed
  define k where "k = nat (- e)"
  from e have k: "0 < k" and ek: "e = - int k" and pk: "p = 1 / 10 ^ k"
    by (simp_all add: k_def p_def)
  from lt pk have "(of_nat m :: rat) < 10 ^ k"
    by (simp add: field_simps)
  then have mk: "m < 10 ^ k"
    by simp
  from ge pk have "(10::rat) ^ k \<le> of_nat m * 10000"
    by (simp add: field_simps)
  then have "(of_nat (10 ^ k) :: rat) \<le> of_nat (m * 10000)"
    by simp
  then have km: "10 ^ k \<le> m * 10000"
    by (simp only: of_nat_le_iff)
  from k obtain j where j: "k = Suc j"
    by (cases k) auto
  from mk j have "length (dec m) \<le> k"
    using length_dec_le [of m j] by simp
  moreover have "k < length (dec m) + 4"
  proof -
    have "m * 10000 < 10 ^ length (dec m) * 10 ^ 4"
      using dec_upper [of m] by simp
    with km have "(10::nat) ^ k < 10 ^ (length (dec m) + 4)"
      by (simp add: power_add)
    then show ?thesis
      by (simp add: power_strict_increasing_iff)
  qed
  ultimately show ?thesis
    using neg m ek by simp
qed

lemma spec_int_minus_zero: "spec_int ''-0'' = Some 0"
  by (simp add: spec_int_def is_digit_def digits_val_def digit_val_def)

lemma format_comma_zero: "format_comma 0 = ''0''"
  by (simp add: format_comma_def group3_def dec_small digit_char_def)

text \<open>
  Claim C9, as amended. For every value whose float lies strictly between \<open>-1\<close> and
  \<open>-0.0001\<close> included, the text of the float starts with \<open>-0.\<close>, and \<open>format_number\<close>, for
  a length that the text without its sign fits, returns that text without the minus
  sign, padded with spaces on the right: the integer part \<open>-0\<close> is read as the integer
  \<open>0\<close>.
\<close>

theorem minus_sign_dropped_down_to_minus_1e_4:
  assumes "py_float v = Inr x"
    and "float_val x = Some r"
    and "- 1 < r" and "r \<le> - 1 / 10000"
    and "int (length (float_str x)) - 1 \<le> L"
  shows "take 3 (float_str x) = ''-0.''
         \<and> format_number v L
             = Inr (tl (float_str x) @ replicate (nat L - (length (float_str x) - 1)) CHR '' '')
         \<and> CHR ''-'' \<notin> set (tl (float_str x) @ replicate (nat L - (length (float_str x) - 1)) CHR '' '')"
proof -
  from assms(2) obtain neg m e where x: "x = Finite neg m e"
    by (cases x) (auto simp add: float_val_def)
  from decpt_between_minus_one_and_minus_1e_4 [OF assms(2) [unfolded x] assms(3,4)]
  have neg: neg and m: "0 < m"
    and hi: "e + int (length (dec m)) \<le> 0" and lo: "- 4 < e + int (length (dec m))"
    by simp_all
  from float_digits_positive [OF m, of e] obtain ds
    where ds: "float_digits m e = (ds, e + int (length (dec m)))"
      and digits: "list_all is_digit ds"
    by auto
  let ?frac = "replicate (nat (- (e + int (length (dec m))))) CHR ''0'' @ ds"
  have str: "float_str x = ''-0.'' @ ?frac"
    using x neg ds hi lo by (simp add: float_str_def repr_fixed_def)
  have zero_digit: "is_digit CHR ''0''"
    by (simp add: is_digit_def)
  have frac_digits: "list_all is_digit ?frac"
    using digits zero_digit by (auto simp add: list_all_iff)
  have nodot: "CHR ''.'' \<notin> set ?frac" and nominus: "CHR ''-'' \<notin> set ?frac"
    using digits_have_no [OF frac_digits] by simp_all
  have "split_char CHR ''.'' (''-0'' @ CHR ''.'' # ?frac) = [''-0'', ?frac]"
    using nodot by (intro split_char_one_separator) simp_all
  then have parts: "split_char CHR ''.'' (float_str x) = [''-0'', ?frac]"
    by (simp add: str)
  have int_part: "py_int ''-0'' = Inr 0"
    using spec_int_minus_zero by (rule py_int_spec_int)
  have formatted: "format_comma 0 @ ''.'' @ ?frac = tl (float_str x)"
    by (simp add: format_comma_zero str)
  have fits: "int (length (format_comma 0 @ ''.'' @ ?frac)) \<le> L"
    using assms(5) by (simp add: format_comma_zero str)
  have "format_number_try v L = Inr (ljust (format_comma 0 @ ''.'' @ ?frac) L)"
    using assms(1) parts int_part fits by (rule format_number_try_fits)
  then have "format_number_try v L = Inr (ljust (tl (float_str x)) L)"
    by (simp only: formatted)
  with py_float_Inr_not_blank [OF assms(1)]
  have result: "format_number v L = Inr (ljust (tl (float_str x)) L)"
    by (simp add: format_number_def)
  have padded: "ljust (tl (float_str x)) L
                  = tl (float_str x) @ replicate (nat L - (length (float_str x) - 1)) CHR '' ''"
    by (simp add: ljust_def)
  have "CHR ''-'' \<notin> set (tl (float_str x))"
    using nominus by (simp add: str)
  then have "CHR ''-'' \<notin> set (tl (float_str x)
                  @ replicate (nat L - (length (float_str x) - 1)) CHR '' '')"
    by simp
  with result padded str show ?thesis
    by simp
qed

lemma to_double_half: "decimal_to_double 5 (- 1) = (4503599627370496, - 53)"
  by (simp add: eval_float)

lemma candidates_half: "candidates (4503599627370496, - 53) 1 = [(5, - 1)]"
  by (simp add: eval_float)

lemma shortest_half: "shortest (4503599627370496, - 53) = (5, - 1)"
  by (rule shortest_first [OF candidates_half]) simp_all

lemma py_float_minus_half: "py_float (PStr ''-0.5'') = Inr (Finite True 5 (- 1))"
proof -
  have "float_of_str ''-0.5'' = Some (float_of_decimal True 5 (- 1))"
    by (simp add: eval_parse)
  moreover have "float_of_decimal True 5 (- 1) = Finite True 5 (- 1)"
    by (simp add: float_of_decimal_def to_double_half float_of_double_def shortest_half
        double_overflow_def bitlen_zero bitlen_pos)
  ultimately show ?thesis
    by (simp add: py_float_def)
qed

lemma float_str_minus_half: "float_str (Finite True 5 (- 1)) = ''-0.5''"
  by (simp add: eval_text)

lemma float_val_minus_half: "float_val (Finite True 5 (- 1)) = Some (- 1 / 2)"
  by (simp add: float_val_def)

theorem minus_sign_dropped_down_to_minus_1e_4_witness:
  "py_float (PStr ''-0.5'') = Inr (Finite True 5 (- 1))
   \<and> float_val (Finite True 5 (- 1)) = Some (- 1 / 2)
   \<and> - 1 < (- 1 / 2 :: rat) \<and> (- 1 / 2 :: rat) \<le> - 1 / 10000
   \<and> float_str (Finite True 5 (- 1)) = ''-0.5''
   \<and> int (length ''-0.5'') - 1 \<le> 6
   \<and> format_number (PStr ''-0.5'') 6 = Inr ''0.5   ''"
proof -
  have above: "- 1 < (- 1 / 2 :: rat)" and below: "(- 1 / 2 :: rat) \<le> - 1 / 10000"
    by simp_all
  have fits: "int (length (float_str (Finite True 5 (- 1)))) - 1 \<le> 6"
    by (simp add: float_str_minus_half)
  show ?thesis
    using minus_sign_dropped_down_to_minus_1e_4
            [OF py_float_minus_half float_val_minus_half above below fits]
    by (simp add: py_float_minus_half float_val_minus_half float_str_minus_half
        replicate_numeral_eval)
qed

lemma to_double_15e_6: "decimal_to_double 15 (- 6) = (8854437155380585, - 69)"
  by (simp add: eval_float)

lemma candidates_15e_6_1: "candidates (8854437155380585, - 69) 1 = []"
  by (simp add: eval_float)

lemma candidates_15e_6_2: "candidates (8854437155380585, - 69) 2 = [(15, - 6)]"
  by (simp add: eval_float)

lemma shortest_15e_6: "shortest (8854437155380585, - 69) = (15, - 6)"
proof (rule shortest_first [OF candidates_15e_6_2])
  show "\<forall>k. 0 < k \<and> k < 2 \<longrightarrow> candidates (8854437155380585, - 69) k = []"
  proof (intro allI impI)
    fix k :: nat
    assume "0 < k \<and> k < 2"
    then have "k = 1" by simp
    then show "candidates (8854437155380585, - 69) k = []"
      using candidates_15e_6_1 by simp
  qed
qed simp_all

lemma py_float_minus_15e_6: "py_float (PStr ''-0.000015'') = Inr (Finite True 15 (- 6))"
proof -
  have "float_of_str ''-0.000015'' = Some (float_of_decimal True 15 (- 6))"
    by (simp add: eval_parse)
  moreover have "float_of_decimal True 15 (- 6) = Finite True 15 (- 6)"
    by (simp add: float_of_decimal_def to_double_15e_6 float_of_double_def shortest_15e_6
        double_overflow_def bitlen_zero bitlen_pos)
  ultimately show ?thesis
    by (simp add: py_float_def)
qed

lemma float_str_minus_15e_6: "float_str (Finite True 15 (- 6)) = ''-1.5e-05''"
  by (simp add: eval_text)

text \<open>
  Claim C9 as it is stated fails for the value \<open>-0.000015\<close>, which lies strictly between
  \<open>-1\<close> and \<open>0\<close>: the text of the float is \<open>-1.5e-05\<close>, its integer part \<open>-1\<close>, and the
  minus sign stays in the output.
\<close>

theorem small_negative_keeps_its_minus_sign:
  "py_float (PStr ''-0.000015'') = Inr (Finite True 15 (- 6))
   \<and> float_val (Finite True 15 (- 6)) = Some (- 3 / 200000)
   \<and> - 1 < (- 3 / 200000 :: rat) \<and> (- 3 / 200000 :: rat) < 0
   \<and> float_str (Finite True 15 (- 6)) = ''-1.5e-05''
   \<and> format_number (PStr ''-0.000015'') 10 = Inr ''-1.5e-05  ''
   \<and> format_number (PFloat (Finite True 15 (- 6))) 10 = Inr ''-1.5e-05  ''"
proof -
  have a: "format_number (PStr ''-0.000015'') 10 = Inr ''-1.5e-05  ''"
    by (simp add: format_number_def format_number_try_def py_float_minus_15e_6
        float_str_minus_15e_6 eval_text)
  have b: "format_number (PFloat (Finite True 15 (- 6))) 10 = Inr ''-1.5e-05  ''"
    by (simp add: format_number_def format_number_try_def py_float_def
        float_str_minus_15e_6 eval_text)
  have c: "float_val (Finite True 15 (- 6)) = Some (- 3 / 200000)"
    by (simp add: float_val_def)
  from a b c py_float_minus_15e_6 float_str_minus_15e_6 show ?thesis
    by simp
qed

text \<open>
  Closer to zero still, a float whose text has a one-digit mantissa has no decimal point
  in its text, and \<open>format_number\<close> raises \<open>ValueError\<close>.
\<close>

lemma one_digit_small_negative_is_rejected:
  "float_str (Finite True 1 (- 5)) = ''-1e-05''
   \<and> format_number (PFloat (Finite True 1 (- 5))) 10
       = Inl (ValueError ''Value is not a number: -1e-05'')"
  by (simp add: format_number_def format_number_try_def py_float_def eval_text)

end
